theory Spec2Isabelle
  imports Complex_Main
begin

section \<open>PhyloShape: ancestral shape reconstruction on a tree\<close>

text \<open>
  A shallow embedding of \<^verbatim>\<open>phyloshape/phylo/src/phylo.py\<close> (class \<^verbatim>\<open>PhyloShape\<close>) and of
  \<^verbatim>\<open>phyloshape/shape/src/vertex.py\<close> (class \<^verbatim>\<open>Vertices\<close>).

  The Python object is a record that every method takes and returns. A method that
  raises keeps the mutations it made before raising, so its outcome carries the state in
  both cases. Python runs with assertions enabled (no \<^verbatim>\<open>-O\<close>). A floating point
  number is the real number it denotes; where the source itself computes with floats,
  each operation rounds its result to a float, and the rounding is the parameter
  \<open>float64\<close>.

  Code that lives outside the two source files (the tree library, the motion models,
  the vertex/vector mapper, symengine's \<^verbatim>\<open>lambdify\<close> and \<^verbatim>\<open>log\<close>, scipy's
  \<^verbatim>\<open>basinhopping\<close>, numpy's random generator) is a parameter of the model: the record
  \<open>externals\<close>, and the fields of the tree that the tree library computes.
\<close>

subsection \<open>Errors and outcomes\<close>

datatype error =
    AssertionError string
  | IndexError
  | AttributeError
  | TypeError
  | ValueError
  | ZeroDivisionError
  | NotImplementedError
  | Exception string

datatype 's outcome = Done 's | Raised error 's

definition then_do :: "'s outcome \<Rightarrow> ('s \<Rightarrow> 's outcome) \<Rightarrow> 's outcome" where
  "then_do r f = (case r of Done s \<Rightarrow> f s | Raised e s \<Rightarrow> Raised e s)"

subsection \<open>Arrays, symbols and expressions\<close>

text \<open>A numpy array: its shape and its elements in row-major (flattened) order.\<close>

record 'a ndarray =
  shape :: "nat list"
  flat :: "'a list"

text \<open>
  A node's \<^verbatim>\<open>vectors\<close> is an array of floats (tips, and ancestral nodes after the
  optimization) or an array of symengine symbols (ancestral nodes before it). A symbol
  is its name.
\<close>

datatype vectors = Numeric "real ndarray" | Symbolic "string ndarray"

fun vectors_shape :: "vectors \<Rightarrow> nat list" where
  "vectors_shape (Numeric a) = shape a"
| "vectors_shape (Symbolic a) = shape a"

text \<open>
  Symbolic expressions. The source only forms \<^verbatim>\<open>0\<close>, sums (\<^verbatim>\<open>+=\<close>) and a negation;
  products and applications of named functions are there for the terms that a motion
  model returns. symengine normalises expressions; the model keeps the syntax tree and
  gives it its value with \<open>eval_expr\<close>.
\<close>

datatype expr =
    Const real
  | Sym string
  | Add expr expr
  | Neg expr
  | Mul expr expr
  | Fn string "expr list"

fun eval_expr :: "(string \<Rightarrow> real) \<Rightarrow> (string \<Rightarrow> real list \<Rightarrow> real) \<Rightarrow> expr \<Rightarrow> real" where
  "eval_expr env fi (Const c) = c"
| "eval_expr env fi (Sym v) = env v"
| "eval_expr env fi (Add a b) = eval_expr env fi a + eval_expr env fi b"
| "eval_expr env fi (Neg a) = - eval_expr env fi a"
| "eval_expr env fi (Mul a b) = eval_expr env fi a * eval_expr env fi b"
| "eval_expr env fi (Fn f as) = fi f (map (eval_expr env fi) as)"

text \<open>\<^verbatim>\<open>np.prod(shape)\<close> for a non-empty shape.\<close>

definition np_prod :: "nat list \<Rightarrow> nat" where
  "np_prod sh = foldr (*) sh 1"

text \<open>\<^verbatim>\<open>"%s" % n\<close> for a non-negative integer: its decimal digits.\<close>

definition digit_char :: "nat \<Rightarrow> char" where
  "digit_char d = ''0123456789'' ! d"

function str_nat :: "nat \<Rightarrow> string" where
  "str_nat n = (if n < 10 then [digit_char n] else str_nat (n div 10) @ [digit_char (n mod 10)])"
  by pat_completeness auto
termination
  by (relation "measure (\<lambda>n. n)") auto

declare str_nat.simps [simp del]

subsection \<open>Vertices (vertex.py)\<close>

record vertices =
  coords :: "real list list"
  colors :: "int list list"

text \<open>
  \<^verbatim>\<open>Vertices.__init__\<close>: an absent argument becomes the empty array, and the two
  arrays must have the same length (number of rows).
\<close>

definition Vertices_init :: "real list list option \<Rightarrow> int list list option \<Rightarrow> error + vertices" where
  "Vertices_init coords_arg colors_arg =
     (let self_coords = (case coords_arg of None \<Rightarrow> [] | Some c \<Rightarrow> c);
          self_colors = (case colors_arg of None \<Rightarrow> [] | Some c \<Rightarrow> c)
      in if length self_coords = length self_colors
         then Inr \<lparr>coords = self_coords, colors = self_colors\<rparr>
         else Inl (AssertionError []))"

subsection \<open>The tree\<close>

text \<open>
  A node of the tree, with the attributes the source reads and writes. \<open>up\<close> is the
  index of the parent (\<open>None\<close> at the root, which is what \<^verbatim>\<open>is_root()\<close> tests);
  \<open>node_dist\<close> is \<^verbatim>\<open>_dist\<close>, the length of the branch to the parent. The attributes
  \<^verbatim>\<open>vertices\<close>, \<^verbatim>\<open>vectors\<close> and \<^verbatim>\<open>vectors_symbols\<close> do not exist until the source
  assigns them: reading one that is \<open>None\<close> raises AttributeError.
\<close>

record node =
  name :: string
  node_dist :: real
  up :: "nat option"
  vertices :: "vertices option"
  vectors :: "vectors option"
  vectors_symbols :: "string ndarray option"

text \<open>
  The tree library numbers the leaves \<open>0 ..< ntips\<close> and the internal nodes
  \<open>ntips ..< nnodes\<close>; \<open>traverse\<close> is the order in which \<^verbatim>\<open>tree.traverse()\<close> yields
  the nodes, as their indices.
\<close>

record tree =
  tips :: "node list"
  internals :: "node list"
  traverse :: "nat list"

definition ntips :: "tree \<Rightarrow> nat" where
  "ntips t = length (tips t)"

definition nnodes :: "tree \<Rightarrow> nat" where
  "nnodes t = length (tips t) + length (internals t)"

text \<open>\<^verbatim>\<open>tree[i]\<close>: the node of index \<open>i\<close>.\<close>

definition tree_get :: "tree \<Rightarrow> nat \<Rightarrow> error + node" where
  "tree_get t i =
     (if i < nnodes t then Inr ((tips t @ internals t) ! i) else Inl IndexError)"

text \<open>Assigning to an attribute of \<^verbatim>\<open>tree[i]\<close>: the node of index \<open>i\<close> is replaced.\<close>

definition tree_set :: "tree \<Rightarrow> nat \<Rightarrow> node \<Rightarrow> tree" where
  "tree_set t i n =
     (if i < length (tips t) then t\<lparr>tips := (tips t)[i := n]\<rparr>
      else t\<lparr>internals := (internals t)[i - length (tips t) := n]\<rparr>)"

subsection \<open>External collaborators\<close>

text \<open>
  A motion model (\<^verbatim>\<open>phyloshape.phylo.src.models\<close>, not part of the two files): the
  ordered list of its own parameter symbols, and the log-likelihood term of one branch
  from the branch length, the parent's vectors, the node's vectors and a logarithm.
\<close>

record motion_model =
  get_parameters :: "string list"
  form_log_like :: "real \<Rightarrow> vectors \<Rightarrow> vectors \<Rightarrow> (expr \<Rightarrow> expr) \<Rightarrow> expr"

text \<open>The vertex/vector mapper (\<^verbatim>\<open>phyloshape.shape.src.vectors\<close>).\<close>

record translator =
  to_vectors :: "vertices \<Rightarrow> real ndarray"
  to_vertices :: "vectors \<Rightarrow> real list list"

text \<open>The result object of scipy's optimizer: \<^verbatim>\<open>success\<close>, \<^verbatim>\<open>fun\<close> and \<^verbatim>\<open>x\<close>.\<close>

record opt_result =
  success :: bool
  res_fun :: real
  res_x :: "real list"

text \<open>
  The library functions the source calls. \<open>rand k i\<close> is the \<open>i\<close>-th number of the
  \<open>k\<close>-th array that \<^verbatim>\<open>np.random.random\<close> returns during one call of
  \<^verbatim>\<open>minimize_negloglike\<close>. \<open>basinhopping\<close> is called with fixed options and a fixed
  seed, so its result is a function of the objective and of the initial guess.
  \<open>lambdify\<close> is symengine's compiler on a non-empty list of arguments. \<open>float64\<close>
  rounds the exact result of an arithmetic operation, or a decimal literal, to the
  float that Python computes with.
\<close>

record externals =
  Brownian :: motion_model
  VertexVectorMapper :: "real list list list \<Rightarrow> string \<Rightarrow> int \<Rightarrow> int \<Rightarrow> translator"
  VertexVectorMapperOld :: "vertices \<Rightarrow> translator"
  s_log :: "expr \<Rightarrow> expr"
  lambdify :: "string list \<Rightarrow> expr list \<Rightarrow> real list \<Rightarrow> real list"
  basinhopping :: "(real list \<Rightarrow> real list) \<Rightarrow> real list \<Rightarrow> opt_result"
  rand :: "nat \<Rightarrow> nat \<Rightarrow> real"
  float64 :: "real \<Rightarrow> real"

subsection \<open>The PhyloShape object\<close>

text \<open>
  \<open>shapes\<close> is the shape alignment: the samples as pairs of a label and its vertices.
  \<^verbatim>\<open>name in shapes\<close> and \<^verbatim>\<open>shapes[name]\<close> look a label up.
\<close>

record phyloshape =
  tree :: tree
  shapes :: "(string \<times> vertices) list"
  model :: motion_model
  vect_transform :: "(real ndarray list \<Rightarrow> real ndarray list) option"
  vect_inverse_transform :: "(vectors \<Rightarrow> vectors) option"
  variables :: "string list"
  vv_translator :: "translator option"
  loglike_form :: expr
  negloglike_func :: "(real list \<Rightarrow> real list) option"
  negloglike_func_s :: "(real list \<Rightarrow> real list) option"
  result :: "opt_result option"

text \<open>
  \<^verbatim>\<open>__map_shape_to_tip\<close>: the loop over \<^verbatim>\<open>range(self.tree.ntips)\<close>. The tree is the
  caller's object, so the vertices assigned before a failing assertion stay assigned.
\<close>

fun map_shape_to_tip_loop :: "(string \<times> vertices) list \<Rightarrow> nat list \<Rightarrow> tree \<Rightarrow> tree outcome" where
  "map_shape_to_tip_loop shp [] t = Done t"
| "map_shape_to_tip_loop shp (node_id # rest) t =
     (case tree_get t node_id of
        Inl e \<Rightarrow> Raised e t
      | Inr leaf_node \<Rightarrow>
          (case map_of shp (name leaf_node) of
             None \<Rightarrow>
               Raised (AssertionError
                 (''data must include all tips in the tree. Missing='' @ name leaf_node)) t
           | Some vt \<Rightarrow>
               map_shape_to_tip_loop shp rest
                 (tree_set t node_id (leaf_node\<lparr>vertices := Some vt\<rparr>))))"

definition map_shape_to_tip :: "(string \<times> vertices) list \<Rightarrow> tree \<Rightarrow> tree outcome" where
  "map_shape_to_tip shp t = map_shape_to_tip_loop shp [0 ..< ntips t] t"

text \<open>
  The \<^verbatim>\<open>model\<close> argument of the constructor: \<^verbatim>\<open>None\<close> (or another object that
  Python takes for false), an instance of \<^verbatim>\<open>MotionModel\<close> (which Python takes for
  true), or any other object.
\<close>

datatype model_arg = NoModel | AModel motion_model | NotAModel

text \<open>
  \<^verbatim>\<open>PhyloShape.__init__\<close>. When it raises there is no object; what remains is the
  caller's tree. The statements run in the order of the source: the shapes are bound
  to the tips; the model is \<^verbatim>\<open>model if model else Brownian()\<close> and
  \<^verbatim>\<open>assert isinstance(self.model, MotionModel)\<close> has no message; then the two
  transforms are compared.
\<close>

datatype init_outcome = Constructed phyloshape | InitRaised error tree

definition PhyloShape_init ::
  "externals \<Rightarrow> tree \<Rightarrow> (string \<times> vertices) list \<Rightarrow> model_arg \<Rightarrow>
   (real ndarray list \<Rightarrow> real ndarray list) option \<Rightarrow> (vectors \<Rightarrow> vectors) option \<Rightarrow> init_outcome" where
  "PhyloShape_init ext tree_obj shape_alignments model_given vt vit =
     (case map_shape_to_tip shape_alignments tree_obj of
        Raised e t \<Rightarrow> InitRaised e t
      | Done t \<Rightarrow>
          (case (case model_given of
                   NoModel \<Rightarrow> Some (Brownian ext)
                 | AModel m \<Rightarrow> Some m
                 | NotAModel \<Rightarrow> None) of
             None \<Rightarrow> InitRaised (AssertionError []) t
           | Some self_model \<Rightarrow>
               (if (vt = None) = (vit = None)
                then Constructed
                  \<lparr>tree = t, shapes = shape_alignments,
                   model = self_model,
                   vect_transform = vt, vect_inverse_transform = vit,
                   variables = [], vv_translator = None, loglike_form = Const 0,
                   negloglike_func = None, negloglike_func_s = None, result = None\<rparr>
                else InitRaised
                  (AssertionError
                     ''vect_transform and vect_inverse_transform must be used together!'') t)))"

text \<open>\<^verbatim>\<open>build_vv_translator\<close>.\<close>

definition build_vv_translator ::
  "externals \<Rightarrow> string \<Rightarrow> int \<Rightarrow> int \<Rightarrow> phyloshape \<Rightarrow> phyloshape outcome" where
  "build_vv_translator ext mode num_vs num_vt_iter s =
     (let s1 = s\<lparr>vv_translator := None\<rparr>
      in if mode = ''old''
         then (case shapes s1 of
                 [] \<Rightarrow> Raised IndexError s1
               | (label, vs) # _ \<Rightarrow>
                   Done (s1\<lparr>vv_translator := Some (VertexVectorMapperOld ext vs)\<rparr>))
         else Done (s1\<lparr>vv_translator :=
                 Some (VertexVectorMapper ext (map (\<lambda>(lb, vt). coords vt) (shapes s1))
                         mode num_vs num_vt_iter)\<rparr>))"

text \<open>
  \<^verbatim>\<open>build_tip_vectors\<close>, without a transform: each tip gets the vectors of its
  vertices.
\<close>

fun tip_vectors_loop :: "nat list \<Rightarrow> phyloshape \<Rightarrow> phyloshape outcome" where
  "tip_vectors_loop [] s = Done s"
| "tip_vectors_loop (node_id # rest) s =
     (case tree_get (tree s) node_id of
        Inl e \<Rightarrow> Raised e s
      | Inr leaf_node \<Rightarrow>
          (case vv_translator s of
             None \<Rightarrow> Raised AttributeError s
           | Some tr \<Rightarrow>
               (case vertices leaf_node of
                  None \<Rightarrow> Raised AttributeError s
                | Some vs \<Rightarrow>
                    tip_vectors_loop rest
                      (s\<lparr>tree := tree_set (tree s) node_id
                           (leaf_node\<lparr>vectors := Some (Numeric (to_vectors tr vs))\<rparr>)\<rparr>))))"

text \<open>With a transform: the vectors of all tips are collected first.\<close>

fun collect_vectors_list :: "phyloshape \<Rightarrow> nat list \<Rightarrow> error + real ndarray list" where
  "collect_vectors_list s [] = Inr []"
| "collect_vectors_list s (node_id # rest) =
     (case vv_translator s of
        None \<Rightarrow> Inl AttributeError
      | Some tr \<Rightarrow>
          (case tree_get (tree s) node_id of
             Inl e \<Rightarrow> Inl e
           | Inr leaf_node \<Rightarrow>
               (case vertices leaf_node of
                  None \<Rightarrow> Inl AttributeError
                | Some vs \<Rightarrow>
                    (case collect_vectors_list s rest of
                       Inl e \<Rightarrow> Inl e
                     | Inr vl \<Rightarrow> Inr (to_vectors tr vs # vl)))))"

text \<open>
  Then \<^verbatim>\<open>enumerate\<close> runs over what the transform returns, and the node of each
  position gets the transformed vectors.
\<close>

fun assign_transformed :: "(nat \<times> real ndarray) list \<Rightarrow> phyloshape \<Rightarrow> phyloshape outcome" where
  "assign_transformed [] s = Done s"
| "assign_transformed ((node_id, trans_vectors) # rest) s =
     (case tree_get (tree s) node_id of
        Inl e \<Rightarrow> Raised e s
      | Inr nd \<Rightarrow>
          assign_transformed rest
            (s\<lparr>tree := tree_set (tree s) node_id (nd\<lparr>vectors := Some (Numeric trans_vectors)\<rparr>)\<rparr>))"

text \<open>\<^verbatim>\<open>self.tree[0].vectors.shape\<close>.\<close>

definition first_vectors_shape :: "phyloshape \<Rightarrow> error + nat list" where
  "first_vectors_shape s =
     (case tree_get (tree s) 0 of
        Inl e \<Rightarrow> Inl e
      | Inr nd \<Rightarrow> (case vectors nd of None \<Rightarrow> Inl AttributeError | Some v \<Rightarrow> Inr (vectors_shape v)))"

definition build_tip_vectors :: "phyloshape \<Rightarrow> phyloshape outcome" where
  "build_tip_vectors s =
     (case vect_transform s of
        None \<Rightarrow> tip_vectors_loop [0 ..< ntips (tree s)] s
      | Some tf \<Rightarrow>
          (case collect_vectors_list s [0 ..< ntips (tree s)] of
             Inl e \<Rightarrow> Raised e s
           | Inr vectors_list \<Rightarrow>
               then_do (assign_transformed (enumerate 0 (tf vectors_list)) s)
                 (\<lambda>s1. \<comment> \<open>the log line reads \<^verbatim>\<open>vectors_list[0].shape\<close> and \<^verbatim>\<open>self.tree[0].vectors.shape\<close>\<close>
                    if vectors_list = [] then Raised IndexError s1
                    else (case first_vectors_shape s1 of
                            Inl e \<Rightarrow> Raised e s1
                          | Inr sh \<Rightarrow> Done s1))))"

text \<open>
  \<^verbatim>\<open>sym_ancestral_vectors\<close>: one symbol \<^verbatim>\<open>"%s_%s" % (node_id, go_v)\<close> for each
  component. \<^verbatim>\<open>np.prod\<close> of the empty shape is the float 1.0, which \<^verbatim>\<open>range\<close>
  refuses.
\<close>

definition node_symbols :: "nat \<Rightarrow> nat list \<Rightarrow> string ndarray" where
  "node_symbols node_id vshape =
     \<lparr>shape = vshape,
      flat = map (\<lambda>go_v. str_nat node_id @ ''_'' @ str_nat go_v) [0 ..< np_prod vshape]\<rparr>"

fun sym_loop :: "nat list \<Rightarrow> nat list \<Rightarrow> phyloshape \<Rightarrow> phyloshape outcome" where
  "sym_loop vshape [] s = Done s"
| "sym_loop vshape (node_id # rest) s =
     (case tree_get (tree s) node_id of
        Inl e \<Rightarrow> Raised e s
      | Inr ancestral_node \<Rightarrow>
          (if vshape = [] then Raised TypeError s
           else sym_loop vshape rest
                  (s\<lparr>tree := tree_set (tree s) node_id
                       (ancestral_node\<lparr>vectors := Some (Symbolic (node_symbols node_id vshape)),
                                       vectors_symbols := Some (node_symbols node_id vshape)\<rparr>)\<rparr>)))"

definition sym_ancestral_vectors :: "phyloshape \<Rightarrow> phyloshape outcome" where
  "sym_ancestral_vectors s =
     (case first_vectors_shape s of
        Inl e \<Rightarrow> Raised e s
      | Inr vshape \<Rightarrow> sym_loop vshape [ntips (tree s) ..< nnodes (tree s)] s)"

text \<open>
  \<^verbatim>\<open>__update_variables\<close>: the parameters of the model, then the flattened symbols of
  each ancestral node, by increasing node index.
\<close>

fun extend_variables_loop :: "nat list \<Rightarrow> phyloshape \<Rightarrow> phyloshape outcome" where
  "extend_variables_loop [] s = Done s"
| "extend_variables_loop (ancestral_node_id # rest) s =
     (case tree_get (tree s) ancestral_node_id of
        Inl e \<Rightarrow> Raised e s
      | Inr nd \<Rightarrow>
          (case vectors_symbols nd of
             None \<Rightarrow> Raised AttributeError s
           | Some syms \<Rightarrow>
               extend_variables_loop rest (s\<lparr>variables := variables s @ flat syms\<rparr>)))"

definition update_variables :: "phyloshape \<Rightarrow> phyloshape outcome" where
  "update_variables s =
     extend_variables_loop [ntips (tree s) ..< nnodes (tree s)]
       (s\<lparr>variables := [] @ get_parameters (model s)\<rparr>)"

text \<open>
  \<^verbatim>\<open>formularize_log_like\<close>: the loop over \<^verbatim>\<open>self.tree.traverse()\<close>. A node whose
  \<open>up\<close> is \<open>None\<close> is the root and is skipped. (In Python \<^verbatim>\<open>node.up\<close> is a reference
  to a node of the same tree; an index outside the tree has no counterpart there.)
\<close>

fun formularize_loop :: "(expr \<Rightarrow> expr) \<Rightarrow> nat list \<Rightarrow> phyloshape \<Rightarrow> phyloshape outcome" where
  "formularize_loop log_func [] s = Done s"
| "formularize_loop log_func (idx # rest) s =
     (case tree_get (tree s) idx of
        Inl e \<Rightarrow> Raised e s
      | Inr nd \<Rightarrow>
          (case up nd of
             None \<Rightarrow> formularize_loop log_func rest s
           | Some p \<Rightarrow>
               (case tree_get (tree s) p of
                  Inl e \<Rightarrow> Raised e s
                | Inr parent \<Rightarrow>
                    (case vectors parent of
                       None \<Rightarrow> Raised AttributeError s
                     | Some from_states \<Rightarrow>
                         (case vectors nd of
                            None \<Rightarrow> Raised AttributeError s
                          | Some to_states \<Rightarrow>
                              formularize_loop log_func rest
                                (s\<lparr>loglike_form :=
                                     Add (loglike_form s)
                                       (form_log_like (model s) (node_dist nd)
                                          from_states to_states log_func)\<rparr>))))))"

definition formularize_log_like :: "(expr \<Rightarrow> expr) \<Rightarrow> phyloshape \<Rightarrow> phyloshape outcome" where
  "formularize_log_like log_func s =
     then_do (formularize_loop log_func (traverse (tree s)) (s\<lparr>loglike_form := Const 0\<rparr>))
       update_variables"

text \<open>
  \<^verbatim>\<open>symengine.lambdify(args, exprs)\<close>: symengine refuses an empty list of arguments
  with NotImplementedError ("Support for zero arguments not yet supported"); on a
  non-empty list it is the external compiler.
\<close>

definition symengine_lambdify ::
  "externals \<Rightarrow> string list \<Rightarrow> expr list \<Rightarrow> error + (real list \<Rightarrow> real list)" where
  "symengine_lambdify ext args exprs =
     (if args = [] then Inl NotImplementedError else Inr (lambdify ext args exprs))"

text \<open>
  \<^verbatim>\<open>functionalize_log_like\<close>: compiles the negated formula over the current variables.
  The source tests nothing itself; when \<^verbatim>\<open>lambdify\<close> raises, neither attribute is
  assigned.
\<close>

definition functionalize_log_like :: "externals \<Rightarrow> phyloshape \<Rightarrow> phyloshape outcome" where
  "functionalize_log_like ext s =
     (case symengine_lambdify ext (variables s) [Neg (loglike_form s)] of
        Inl e \<Rightarrow> Raised e s
      | Inr f \<Rightarrow> Done (s\<lparr>negloglike_func := Some f, negloglike_func_s := Some (\<lambda>x. f x)\<rparr>))"

text \<open>
  \<^verbatim>\<open>__summarize_ml_result\<close>. The leading slice of \<^verbatim>\<open>result.x\<close> is the fitted
  parameters of the model (they are only logged).
\<close>

definition model_params :: "phyloshape \<Rightarrow> real list \<Rightarrow> real list" where
  "model_params s x = take (length (get_parameters (model s))) x"

text \<open>
  The loop over the ancestral nodes: the slice \<^verbatim>\<open>x[go_p:to_p]\<close> is reshaped and
  assigned. With the empty shape \<open>n_vals\<close> is a float and the slice raises TypeError;
  \<^verbatim>\<open>reshape\<close> raises ValueError when the slice has not \<open>n_vals\<close> elements.
\<close>

fun summarize_loop ::
  "real list \<Rightarrow> nat list \<Rightarrow> nat \<Rightarrow> nat list \<Rightarrow> nat \<Rightarrow> phyloshape \<Rightarrow> phyloshape outcome" where
  "summarize_loop x vshape n_vals [] go_p s = Done s"
| "summarize_loop x vshape n_vals (anc_node_id # rest) go_p s =
     (let to_p = go_p + n_vals
      in if vshape = [] then Raised TypeError s
         else (let chunk = drop go_p (take to_p x)
               in if length chunk \<noteq> n_vals then Raised ValueError s
                  else (case tree_get (tree s) anc_node_id of
                          Inl e \<Rightarrow> Raised e s
                        | Inr nd \<Rightarrow>
                            summarize_loop x vshape n_vals rest to_p
                              (s\<lparr>tree := tree_set (tree s) anc_node_id
                                   (nd\<lparr>vectors := Some (Numeric \<lparr>shape = vshape, flat = chunk\<rparr>)\<rparr>)\<rparr>))))"

definition summarize_ml_result :: "phyloshape \<Rightarrow> phyloshape outcome" where
  "summarize_ml_result s =
     (case result s of
        None \<Rightarrow> Raised AttributeError s
      | Some r \<Rightarrow>
          (let go_p = length (get_parameters (model s));
               logged = model_params s (res_x r)
           in case first_vectors_shape s of
                Inl e \<Rightarrow> Raised e s
              | Inr vshape \<Rightarrow>
                  summarize_loop (res_x r) vshape (np_prod vshape)
                    [ntips (tree s) ..< nnodes (tree s)] go_p s))"

text \<open>
  \<^verbatim>\<open>minimize_negloglike\<close>, one round of the loop up to the call of the optimizer.
  Of \<^verbatim>\<open>vector_mean\<close> only the length is read: the flattened average of the tips'
  vectors has as many elements as their common shape (one, a NaN, when there is no
  tip). Arrays of different shapes cannot be stacked (ValueError), and
  \<^verbatim>\<open>np.average\<close> divides the number of elements by the size of the mean, which for
  arrays of no element raises ZeroDivisionError.
\<close>

fun tip_vectors_list :: "phyloshape \<Rightarrow> nat list \<Rightarrow> error + vectors list" where
  "tip_vectors_list s [] = Inr []"
| "tip_vectors_list s (n_id # rest) =
     (case tree_get (tree s) n_id of
        Inl e \<Rightarrow> Inl e
      | Inr nd \<Rightarrow>
          (case vectors nd of
             None \<Rightarrow> Inl AttributeError
           | Some v \<Rightarrow>
               (case tip_vectors_list s rest of
                  Inl e \<Rightarrow> Inl e
                | Inr vs \<Rightarrow> Inr (v # vs))))"

definition len_vector_mean :: "vectors list \<Rightarrow> error + nat" where
  "len_vector_mean vs =
     (case vs of
        [] \<Rightarrow> Inr 1
      | v # rest \<Rightarrow>
          if \<not> list_all (\<lambda>w. vectors_shape w = vectors_shape v) rest then Inl ValueError
          else if np_prod (vectors_shape v) = 0 then Inl ZeroDivisionError
          else Inr (np_prod (vectors_shape v)))"

text \<open>\<^verbatim>\<open>np.random.random(n)\<close>, the \<open>k\<close>-th draw.\<close>

definition np_random_random :: "externals \<Rightarrow> nat \<Rightarrow> nat \<Rightarrow> real list" where
  "np_random_random ext k n = map (rand ext k) [0 ..< n]"

text \<open>
  Where the slice \<^verbatim>\<open>a[-k:]\<close> of an array of length \<open>n\<close> starts: \<^verbatim>\<open>-0\<close> is \<^verbatim>\<open>0\<close>, so
  for \<open>k = 0\<close> the slice is the whole array, as it is for \<open>k > n\<close>.
\<close>

definition neg_slice_start :: "nat \<Rightarrow> nat \<Rightarrow> nat" where
  "neg_slice_start n k = (if k = 0 then 0 else n - k)"

text \<open>
  \<^verbatim>\<open>1 - (v - 0.5) * 0.01\<close> on a float \<open>v\<close>: the literals are floats and each of the
  three operations rounds.
\<close>

definition perturb :: "externals \<Rightarrow> real \<Rightarrow> real" where
  "perturb ext v =
     float64 ext (1 - float64 ext (float64 ext (v - float64 ext 0.5) * float64 ext 0.01))"

text \<open>\<^verbatim>\<open>initials[-len_vt:] = (1 - (initials[-len_vt:] - 0.5) * 0.01)\<close>.\<close>

definition perturb_tail :: "externals \<Rightarrow> nat \<Rightarrow> real list \<Rightarrow> real list" where
  "perturb_tail ext len_vt initials =
     (let start = neg_slice_start (length initials) len_vt
      in take start initials @ map (perturb ext) (drop start initials))"

definition propose_initials :: "externals \<Rightarrow> phyloshape \<Rightarrow> nat \<Rightarrow> error + real list" where
  "propose_initials ext s count_run =
     (case tip_vectors_list s [0 ..< ntips (tree s)] of
        Inl e \<Rightarrow> Inl e
      | Inr tip_vectors \<Rightarrow>
          (case len_vector_mean tip_vectors of
             Inl e \<Rightarrow> Inl e
           | Inr len_vt \<Rightarrow>
               Inr (perturb_tail ext len_vt
                      (np_random_random ext count_run (length (variables s))))))"

text \<open>An objective that is still \<open>None\<close> cannot be called.\<close>

definition attempt :: "externals \<Rightarrow> phyloshape \<Rightarrow> nat \<Rightarrow> error + opt_result" where
  "attempt ext s count_run =
     (case propose_initials ext s count_run of
        Inl e \<Rightarrow> Inl e
      | Inr initials \<Rightarrow>
          (case negloglike_func_s s of
             None \<Rightarrow> Inl TypeError
           | Some f \<Rightarrow> Inr (basinhopping ext f initials)))"

text \<open>
  The \<^verbatim>\<open>while count_run < 200\<close> loop. It returns \<open>count_run\<close> and \<open>success_runs\<close> as
  they are when the loop is left, and (for the statements about the loop) the results
  of all the attempts it made, in order.
\<close>

function optimize_loop ::
  "externals \<Rightarrow> phyloshape \<Rightarrow> nat \<Rightarrow> opt_result list \<Rightarrow> opt_result list \<Rightarrow>
   error + (nat \<times> opt_result list \<times> opt_result list)" where
  "optimize_loop ext s count_run success_runs attempts =
     (if count_run < 200
      then (case attempt ext s count_run of
              Inl e \<Rightarrow> Inl e
            | Inr r \<Rightarrow>
                if success r
                then Inr (count_run, success_runs @ [r], attempts @ [r])
                else optimize_loop ext s (count_run + 1) success_runs (attempts @ [r]))
      else Inr (count_run, success_runs, attempts))"
  by pat_completeness auto
termination
  by (relation "measure (\<lambda>(ext, s, count_run, success_runs, attempts). 200 - count_run)") auto

declare optimize_loop.simps [simp del]

definition minimize_negloglike :: "externals \<Rightarrow> int \<Rightarrow> phyloshape \<Rightarrow> phyloshape outcome" where
  "minimize_negloglike ext num_proc s =
     (case optimize_loop ext s 0 [] [] of
        Inl e \<Rightarrow> Raised e s
      | Inr (count_run, success_runs, attempts) \<Rightarrow>
          (case success_runs of
             [] \<Rightarrow> Raised (Exception ''optimization failed!'') s
           | r # _ \<Rightarrow> summarize_ml_result (s\<lparr>result := Some r\<rparr>)))"

text \<open>
  \<^verbatim>\<open>build_ancestral_vertices\<close>: the two loops. \<^verbatim>\<open>Vertices\<close> is called with the
  coordinates alone.
\<close>

fun ancestral_vertices_loop :: "nat list \<Rightarrow> phyloshape \<Rightarrow> phyloshape outcome" where
  "ancestral_vertices_loop [] s = Done s"
| "ancestral_vertices_loop (anc_node_id # rest) s =
     (case vv_translator s of
        None \<Rightarrow> Raised AttributeError s
      | Some tr \<Rightarrow>
          (case tree_get (tree s) anc_node_id of
             Inl e \<Rightarrow> Raised e s
           | Inr nd \<Rightarrow>
               (case vectors nd of
                  None \<Rightarrow> Raised AttributeError s
                | Some v \<Rightarrow>
                    (case Vertices_init (Some (to_vertices tr v)) None of
                       Inl e \<Rightarrow> Raised e s
                     | Inr vs \<Rightarrow>
                         ancestral_vertices_loop rest
                           (s\<lparr>tree := tree_set (tree s) anc_node_id (nd\<lparr>vertices := Some vs\<rparr>)\<rparr>)))))"

fun ancestral_vertices_inverse_loop ::
  "(vectors \<Rightarrow> vectors) \<Rightarrow> nat list \<Rightarrow> phyloshape \<Rightarrow> phyloshape outcome" where
  "ancestral_vertices_inverse_loop vit [] s = Done s"
| "ancestral_vertices_inverse_loop vit (anc_node_id # rest) s =
     (case tree_get (tree s) anc_node_id of
        Inl e \<Rightarrow> Raised e s
      | Inr nd \<Rightarrow>
          (case vectors nd of
             None \<Rightarrow> Raised AttributeError s
           | Some v \<Rightarrow>
               (let real_vectors = vit v
                in case vv_translator s of
                     None \<Rightarrow> Raised AttributeError s
                   | Some tr \<Rightarrow>
                       (case Vertices_init (Some (to_vertices tr real_vectors)) None of
                          Inl e \<Rightarrow> Raised e s
                        | Inr vs \<Rightarrow>
                            ancestral_vertices_inverse_loop vit rest
                              (s\<lparr>tree := tree_set (tree s) anc_node_id
                                   (nd\<lparr>vertices := Some vs\<rparr>)\<rparr>)))))"

definition build_ancestral_vertices :: "phyloshape \<Rightarrow> phyloshape outcome" where
  "build_ancestral_vertices s =
     (case vect_inverse_transform s of
        None \<Rightarrow> ancestral_vertices_loop [ntips (tree s) ..< nnodes (tree s)] s
      | Some vit \<Rightarrow>
          ancestral_vertices_inverse_loop vit [ntips (tree s) ..< nnodes (tree s)] s)"

text \<open>
  \<^verbatim>\<open>reconstruct_ancestral_shapes_using_ml\<close>. The optimizer is always called with
  \<^verbatim>\<open>num_proc=1\<close>.
\<close>

definition reconstruct_ancestral_shapes_using_ml ::
  "externals \<Rightarrow> string \<Rightarrow> int \<Rightarrow> int \<Rightarrow> int \<Rightarrow> phyloshape \<Rightarrow> phyloshape outcome" where
  "reconstruct_ancestral_shapes_using_ml ext mode num_vs num_vt_iter num_proc s =
     then_do (build_vv_translator ext mode num_vs num_vt_iter s) (\<lambda>s1.
     then_do (build_tip_vectors s1) (\<lambda>s2.
     then_do (sym_ancestral_vectors s2) (\<lambda>s3.
     then_do (formularize_log_like (s_log ext) s3) (\<lambda>s4.
     then_do (functionalize_log_like ext s4) (\<lambda>s5.
     then_do (minimize_negloglike ext 1 s5)
       build_ancestral_vertices)))))"

subsection \<open>A small instance\<close>

text \<open>
  Concrete collaborators and a concrete tree, on which the statements below are
  evaluated. The tree is \<open>((a,b),c)\<close>: tips \<open>a\<close>, \<open>b\<close>, \<open>c\<close> are nodes 0, 1, 2, their
  common ancestors are node 3 (of \<open>a\<close> and \<open>b\<close>) and the root, node 4.
\<close>

fun vectors_exprs :: "vectors \<Rightarrow> expr list" where
  "vectors_exprs (Numeric a) = map Const (flat a)"
| "vectors_exprs (Symbolic a) = map Sym (flat a)"

definition demo_model :: motion_model where
  "demo_model =
     \<lparr>get_parameters = [''sigma''],
      form_log_like = (\<lambda>time from_states to_states log_f.
         Add (log_f (Mul (Const time) (Sym ''sigma'')))
             (Fn ''sq_dist'' (vectors_exprs from_states @ vectors_exprs to_states)))\<rparr>"

definition demo_translator :: translator where
  "demo_translator =
     \<lparr>to_vectors = (\<lambda>vs. \<lparr>shape = [length (coords vs)], flat = map sum_list (coords vs)\<rparr>),
      to_vertices = (\<lambda>v. case v of Numeric a \<Rightarrow> map (\<lambda>r. [r, 0, 0]) (flat a)
                                   | Symbolic a \<Rightarrow> [])\<rparr>"

definition demo_env :: "string list \<Rightarrow> real list \<Rightarrow> string \<Rightarrow> real" where
  "demo_env args xs v = (case map_of (zip args xs) v of None \<Rightarrow> 0 | Some r \<Rightarrow> r)"

definition demo_fi :: "string \<Rightarrow> real list \<Rightarrow> real" where
  "demo_fi f rs = (if f = ''sq_dist'' then sum_list (map (\<lambda>r. r * r) rs) else sum_list rs)"

definition demo_ext :: externals where
  "demo_ext =
     \<lparr>Brownian = demo_model,
      VertexVectorMapper = (\<lambda>all_coords mode num_vs num_vt_iter. demo_translator),
      VertexVectorMapperOld = (\<lambda>vs. demo_translator),
      s_log = (\<lambda>e. Fn ''log'' [e]),
      lambdify = (\<lambda>args exprs xs. map (eval_expr (demo_env args xs) demo_fi) exprs),
      basinhopping = (\<lambda>f x0. \<lparr>success = (hd x0 = 2 / 1000), res_fun = hd (f x0), res_x = x0\<rparr>),
      rand = (\<lambda>k i. real k / 1000),
      float64 = (\<lambda>r. r)\<rparr>"

text \<open>
  (In this instance no rounding occurs: \<open>float64\<close> is the identity.) The same
  collaborators with an optimizer that never reports success.
\<close>

definition failing_ext :: externals where
  "failing_ext =
     demo_ext\<lparr>basinhopping := (\<lambda>f x0. \<lparr>success = False, res_fun = hd (f x0), res_x = x0\<rparr>)\<rparr>"

definition demo_node :: "string \<Rightarrow> real \<Rightarrow> nat option \<Rightarrow> node" where
  "demo_node nm d p =
     \<lparr>name = nm, node_dist = d, up = p, vertices = None, vectors = None, vectors_symbols = None\<rparr>"

definition demo_tree :: tree where
  "demo_tree =
     \<lparr>tips = [demo_node ''a'' 1 (Some 3), demo_node ''b'' 1 (Some 3), demo_node ''c'' 2 (Some 4)],
      internals = [demo_node [] 1 (Some 4), demo_node [] 0 None],
      traverse = [4, 3, 2, 0, 1]\<rparr>"

definition demo_shapes :: "(string \<times> vertices) list" where
  "demo_shapes =
     [(''a'', \<lparr>coords = [[1, 0, 0]], colors = [[0, 0, 0]]\<rparr>),
      (''b'', \<lparr>coords = [[2, 0, 0]], colors = [[0, 0, 0]]\<rparr>),
      (''c'', \<lparr>coords = [[4, 0, 0]], colors = [[0, 0, 0]]\<rparr>)]"

text \<open>The object that \<^verbatim>\<open>PhyloShape(tree, shapes)\<close> constructs from them.\<close>

definition demo_object :: phyloshape where
  "demo_object =
     \<lparr>tree = demo_tree
        \<lparr>tips := [(demo_node ''a'' 1 (Some 3))\<lparr>vertices := map_of demo_shapes ''a''\<rparr>,
                  (demo_node ''b'' 1 (Some 3))\<lparr>vertices := map_of demo_shapes ''b''\<rparr>,
                  (demo_node ''c'' 2 (Some 4))\<lparr>vertices := map_of demo_shapes ''c''\<rparr>]\<rparr>,
      shapes = demo_shapes, model = demo_model,
      vect_transform = None, vect_inverse_transform = None,
      variables = [], vv_translator = None, loglike_form = Const 0,
      negloglike_func = None, negloglike_func_s = None, result = None\<rparr>"

subsection \<open>Notions used in the statements\<close>

fun raised :: "'s outcome \<Rightarrow> bool" where
  "raised (Done s) = False"
| "raised (Raised e s) = True"

fun state_of :: "'s outcome \<Rightarrow> 's" where
  "state_of (Done s) = s"
| "state_of (Raised e s) = s"

text \<open>The attributes of the node of index \<open>i\<close>, \<open>None\<close> when absent.\<close>

definition node_vectors :: "tree \<Rightarrow> nat \<Rightarrow> vectors option" where
  "node_vectors t i = (case tree_get t i of Inl e \<Rightarrow> None | Inr nd \<Rightarrow> vectors nd)"

definition node_symbols_of :: "tree \<Rightarrow> nat \<Rightarrow> string ndarray option" where
  "node_symbols_of t i = (case tree_get t i of Inl e \<Rightarrow> None | Inr nd \<Rightarrow> vectors_symbols nd)"

definition node_vertices :: "tree \<Rightarrow> nat \<Rightarrow> vertices option" where
  "node_vertices t i = (case tree_get t i of Inl e \<Rightarrow> None | Inr nd \<Rightarrow> vertices nd)"

text \<open>
  The coordinates that \<^verbatim>\<open>build_ancestral_vertices\<close> reconstructs from a node's
  vectors: through the inverse transform when there is one.
\<close>

definition reconstructed_coords :: "phyloshape \<Rightarrow> translator \<Rightarrow> vectors \<Rightarrow> real list list" where
  "reconstructed_coords s tr v =
     to_vertices tr (case vect_inverse_transform s of None \<Rightarrow> v | Some vit \<Rightarrow> vit v)"

text \<open>
  The states of that object along \<^verbatim>\<open>reconstruct_ancestral_shapes_using_ml\<close>: after
  the ancestral vectors are symbolized, after the formula is compiled, and after the
  optimization.
\<close>

definition demo_symbolized :: phyloshape where
  "demo_symbolized = state_of
     (then_do (build_vv_translator demo_ext ''network-local'' 20 5 demo_object) (\<lambda>s1.
      then_do (build_tip_vectors s1) sym_ancestral_vectors))"

definition demo_compiled :: phyloshape where
  "demo_compiled = state_of
     (then_do (formularize_log_like (s_log demo_ext) demo_symbolized)
        (functionalize_log_like demo_ext))"

definition demo_fitted :: phyloshape where
  "demo_fitted = state_of (minimize_negloglike demo_ext 1 demo_compiled)"

text \<open>The initial guess and the optimizer's result of attempt \<open>k\<close> on that object.\<close>

definition demo_initials :: "nat \<Rightarrow> real list" where
  "demo_initials k = [real k / 1000, real k / 1000, 1 - (real k / 1000 - 0.5) * 0.01]"

definition demo_run :: "nat \<Rightarrow> opt_result" where
  "demo_run k =
     basinhopping demo_ext
       (lambdify demo_ext (variables demo_compiled) [Neg (loglike_form demo_compiled)])
       (demo_initials k)"

text \<open>Two trees that differ at most in the \<^verbatim>\<open>vertices\<close> of their tips.\<close>

definition only_tip_vertices_differ :: "tree \<Rightarrow> tree \<Rightarrow> bool" where
  "only_tip_vertices_differ t t' \<longleftrightarrow>
     internals t' = internals t \<and> traverse t' = traverse t \<and>
     map (\<lambda>n. n\<lparr>vertices := None\<rparr>) (tips t') = map (\<lambda>n. n\<lparr>vertices := None\<rparr>) (tips t)"

text \<open>
  The running sum of the formula, in the words of the specification: a node is the
  root when it has no parent; the term of a non-root node is the model's term for the
  length of its branch, its parent's vectors and its own vectors.
\<close>

definition is_root :: "tree \<Rightarrow> nat \<Rightarrow> bool" where
  "is_root t i = (case tree_get t i of Inl e \<Rightarrow> False | Inr nd \<Rightarrow> up nd = None)"

definition branch_term :: "(expr \<Rightarrow> expr) \<Rightarrow> phyloshape \<Rightarrow> nat \<Rightarrow> expr option" where
  "branch_term log_f s i =
     (case tree_get (tree s) i of
        Inl e \<Rightarrow> None
      | Inr nd \<Rightarrow>
          (case up nd of
             None \<Rightarrow> None
           | Some p \<Rightarrow>
               (case node_vectors (tree s) p of
                  None \<Rightarrow> None
                | Some from_states \<Rightarrow>
                    (case vectors nd of
                       None \<Rightarrow> None
                     | Some to_states \<Rightarrow>
                         Some (form_log_like (model s) (node_dist nd) from_states to_states log_f)))))"

text \<open>
  The packing of the free variables, in the words of the specification: the flattened
  symbols of a node, and those of all ancestral nodes by increasing index.
\<close>

definition symbols_flat :: "tree \<Rightarrow> nat \<Rightarrow> string list" where
  "symbols_flat t i = (case node_symbols_of t i of None \<Rightarrow> [] | Some a \<Rightarrow> flat a)"

definition ancestral_symbols :: "tree \<Rightarrow> string list" where
  "ancestral_symbols t = concat (map (symbols_flat t) [ntips t ..< nnodes t])"

text \<open>
  The state that \<^verbatim>\<open>sym_ancestral_vectors\<close> leaves: the vectors of node 0 have the
  shape \<open>vshape\<close> (not the empty shape), and every ancestral node holds the symbols
  made for it.
\<close>

definition symbolized :: "phyloshape \<Rightarrow> nat list \<Rightarrow> bool" where
  "symbolized s vshape \<longleftrightarrow>
     first_vectors_shape s = Inr vshape \<and> vshape \<noteq> [] \<and>
     list_all (\<lambda>i. node_symbols_of (tree s) i = Some (node_symbols i vshape))
       [ntips (tree s) ..< nnodes (tree s)]"

section \<open>Properties\<close>

subsection \<open>Reading and writing nodes\<close>

lemma nnodes_tree_set [simp]: "nnodes (tree_set t i n) = nnodes t"
  by (simp add: nnodes_def tree_set_def)

lemma ntips_tree_set [simp]: "ntips (tree_set t i n) = ntips t"
  by (simp add: ntips_def tree_set_def)

lemma traverse_tree_set [simp]: "traverse (tree_set t i n) = traverse t"
  by (simp add: tree_set_def)

lemma tree_get_tree_set:
  "i < nnodes t \<Longrightarrow> tree_get (tree_set t i n) j = (if j = i then Inr n else tree_get t j)"
  by (auto simp: tree_get_def tree_set_def nnodes_def nth_append nth_list_update)

lemma tree_get_InrD: "tree_get t i = Inr nd \<Longrightarrow> i < nnodes t"
  by (simp add: tree_get_def split: if_splits)

lemma PhyloShape_init_demo:
  "PhyloShape_init demo_ext demo_tree demo_shapes NoModel None None = Constructed demo_object"
  by (simp add: PhyloShape_init_def map_shape_to_tip_def ntips_def demo_tree_def demo_node_def
      demo_shapes_def demo_object_def demo_ext_def tree_get_def tree_set_def nnodes_def upt_rec)

subsection \<open>The concurrency hint\<close>

text \<open>
  Claim C9. \<^verbatim>\<open>num_proc\<close> is accepted and ignored: two runs of
  \<^verbatim>\<open>reconstruct_ancestral_shapes_using_ml\<close> that differ only in \<^verbatim>\<open>num_proc\<close> end
  with the same outcome (the same state, or the same error and state), and so do two
  runs of \<^verbatim>\<open>minimize_negloglike\<close>.
\<close>

theorem num_proc_ignored:
  "reconstruct_ancestral_shapes_using_ml ext mode num_vs num_vt_iter p s =
   reconstruct_ancestral_shapes_using_ml ext mode num_vs num_vt_iter q s
   \<and> minimize_negloglike ext p s = minimize_negloglike ext q s"
  by (simp add: reconstruct_ancestral_shapes_using_ml_def minimize_negloglike_def)

subsection \<open>The small instance, evaluated\<close>

lemmas demo_defs = demo_tree_def demo_node_def demo_shapes_def demo_object_def demo_ext_def
  demo_model_def demo_translator_def

lemmas tree_defs = ntips_def nnodes_def tree_get_def tree_set_def

lemma str_nat_digit: "n < 10 \<Longrightarrow> str_nat n = [digit_char n]"
  by (simp add: str_nat.simps)

lemma demo_symbolized_tree:
  "tree demo_symbolized =
     \<lparr>tips = [\<lparr>name = ''a'', node_dist = 1, up = Some 3,
              vertices = Some \<lparr>coords = [[1, 0, 0]], colors = [[0, 0, 0]]\<rparr>,
              vectors = Some (Numeric \<lparr>shape = [1], flat = [1]\<rparr>), vectors_symbols = None\<rparr>,
             \<lparr>name = ''b'', node_dist = 1, up = Some 3,
              vertices = Some \<lparr>coords = [[2, 0, 0]], colors = [[0, 0, 0]]\<rparr>,
              vectors = Some (Numeric \<lparr>shape = [1], flat = [2]\<rparr>), vectors_symbols = None\<rparr>,
             \<lparr>name = ''c'', node_dist = 2, up = Some 4,
              vertices = Some \<lparr>coords = [[4, 0, 0]], colors = [[0, 0, 0]]\<rparr>,
              vectors = Some (Numeric \<lparr>shape = [1], flat = [4]\<rparr>), vectors_symbols = None\<rparr>],
      internals = [\<lparr>name = [], node_dist = 1, up = Some 4, vertices = None,
                   vectors = Some (Symbolic \<lparr>shape = [1], flat = [''3_0'']\<rparr>),
                   vectors_symbols = Some \<lparr>shape = [1], flat = [''3_0'']\<rparr>\<rparr>,
                  \<lparr>name = [], node_dist = 0, up = None, vertices = None,
                   vectors = Some (Symbolic \<lparr>shape = [1], flat = [''4_0'']\<rparr>),
                   vectors_symbols = Some \<lparr>shape = [1], flat = [''4_0'']\<rparr>\<rparr>],
      traverse = [4, 3, 2, 0, 1]\<rparr>"
  by (simp add: demo_symbolized_def then_do_def build_vv_translator_def build_tip_vectors_def
      sym_ancestral_vectors_def first_vectors_shape_def node_symbols_def np_prod_def
      demo_defs tree_defs upt_rec str_nat_digit digit_char_def)

lemma demo_symbolized_rest:
  "vv_translator demo_symbolized = Some demo_translator"
  "variables demo_symbolized = []"
  "model demo_symbolized = demo_model"
  "vect_inverse_transform demo_symbolized = None"
  by (simp_all add: demo_symbolized_def then_do_def build_vv_translator_def build_tip_vectors_def
      sym_ancestral_vectors_def first_vectors_shape_def node_symbols_def np_prod_def
      demo_defs tree_defs upt_rec str_nat_digit digit_char_def)

lemma demo_ext_fields:
  "s_log demo_ext = (\<lambda>e. Fn ''log'' [e])"
  "rand demo_ext = (\<lambda>k i. real k / 1000)"
  "basinhopping demo_ext = (\<lambda>f x0. \<lparr>success = (hd x0 = 2 / 1000), res_fun = hd (f x0), res_x = x0\<rparr>)"
  "float64 demo_ext = (\<lambda>r. r)"
  by (simp_all add: demo_ext_def)

lemma demo_compiled_fields:
  "tree demo_compiled = tree demo_symbolized"
  "variables demo_compiled = [''sigma'', ''3_0'', ''4_0'']"
  "vv_translator demo_compiled = Some demo_translator"
  "vect_inverse_transform demo_compiled = None"
  "model demo_compiled = demo_model"
  "loglike_form demo_compiled =
     Add (Add (Add (Add (Const 0)
        (Add (Fn ''log'' [Mul (Const 1) (Sym ''sigma'')]) (Fn ''sq_dist'' [Sym ''4_0'', Sym ''3_0''])))
        (Add (Fn ''log'' [Mul (Const 2) (Sym ''sigma'')]) (Fn ''sq_dist'' [Sym ''4_0'', Const 4])))
        (Add (Fn ''log'' [Mul (Const 1) (Sym ''sigma'')]) (Fn ''sq_dist'' [Sym ''3_0'', Const 1])))
        (Add (Fn ''log'' [Mul (Const 1) (Sym ''sigma'')]) (Fn ''sq_dist'' [Sym ''3_0'', Const 2]))"
  by (simp_all add: demo_compiled_def then_do_def formularize_log_like_def update_variables_def
      functionalize_log_like_def symengine_lambdify_def demo_symbolized_tree demo_symbolized_rest
      tree_defs upt_rec demo_model_def demo_ext_fields Let_def)

lemma demo_compiled_func:
  "negloglike_func_s demo_compiled =
     Some (lambdify demo_ext (variables demo_compiled) [Neg (loglike_form demo_compiled)])"
  "negloglike_func demo_compiled = negloglike_func_s demo_compiled"
  by (simp_all add: demo_compiled_def then_do_def formularize_log_like_def update_variables_def
      functionalize_log_like_def symengine_lambdify_def demo_symbolized_tree demo_symbolized_rest
      tree_defs upt_rec demo_model_def demo_ext_fields Let_def)

lemma demo_propose_initials:
  "propose_initials demo_ext demo_compiled k = Inr (demo_initials k)"
  by (simp add: propose_initials_def demo_compiled_fields demo_symbolized_tree tree_defs upt_rec
      len_vector_mean_def np_prod_def perturb_tail_def perturb_def neg_slice_start_def
      np_random_random_def demo_ext_fields demo_initials_def)

lemma demo_attempt: "attempt demo_ext demo_compiled k = Inr (demo_run k)"
  by (simp add: attempt_def demo_propose_initials demo_compiled_func demo_run_def)

lemma demo_run_fields:
  "success (demo_run k) = (k = 2)" "res_x (demo_run k) = demo_initials k"
  by (simp_all add: demo_run_def demo_ext_fields demo_initials_def)

lemma demo_loop:
  "optimize_loop demo_ext demo_compiled 0 [] [] = Inr (2, [demo_run 2], [demo_run 0, demo_run 1, demo_run 2])"
  by (simp add: optimize_loop.simps demo_attempt demo_run_fields numeral_2_eq_2 [symmetric])

lemma demo_fitted_fields:
  "tree demo_fitted = (tree demo_symbolized)
     \<lparr>internals :=
        [\<lparr>name = [], node_dist = 1, up = Some 4, vertices = None,
          vectors = Some (Numeric \<lparr>shape = [1], flat = [2 / 1000]\<rparr>),
          vectors_symbols = Some \<lparr>shape = [1], flat = [''3_0'']\<rparr>\<rparr>,
         \<lparr>name = [], node_dist = 0, up = None, vertices = None,
          vectors = Some (Numeric \<lparr>shape = [1], flat = [100498 / 100000]\<rparr>),
          vectors_symbols = Some \<lparr>shape = [1], flat = [''4_0'']\<rparr>\<rparr>]\<rparr>"
  "vv_translator demo_fitted = Some demo_translator"
  "vect_inverse_transform demo_fitted = None"
  "result demo_fitted = Some (demo_run 2)"
  by (simp_all add: demo_fitted_def minimize_negloglike_def demo_loop summarize_ml_result_def
      first_vectors_shape_def demo_compiled_fields demo_symbolized_tree tree_defs upt_rec
      demo_run_fields demo_initials_def np_prod_def demo_model_def Let_def)

subsection \<open>Vertices without colors\<close>

lemma node_vectors_tree_set:
  "i < nnodes t \<Longrightarrow> node_vectors (tree_set t i n) j = (if j = i then vectors n else node_vectors t j)"
  by (simp add: node_vectors_def tree_get_tree_set)

lemma node_vectors_SomeD:
  "node_vectors t i = Some v \<Longrightarrow> \<exists>nd. tree_get t i = Inr nd \<and> vectors nd = Some v \<and> i < nnodes t"
  by (auto simp: node_vectors_def tree_get_def split: if_splits)

lemma Vertices_init_coords_only:
  "c \<noteq> [] \<Longrightarrow> Vertices_init (Some c) None = Inl (AssertionError [])"
  by (simp add: Vertices_init_def)

lemma Vertices_init_no_coords:
  "Vertices_init (Some []) None = Inr \<lparr>coords = [], colors = []\<rparr>"
  by (simp add: Vertices_init_def)

lemma ancestral_vertices_loop_asserts:
  assumes "vv_translator s = Some tr"
    and "distinct ids"
    and "\<forall>i\<in>set ids. node_vectors (tree s) i \<noteq> None"
    and "\<exists>i\<in>set ids. \<exists>v. node_vectors (tree s) i = Some v \<and> to_vertices tr v \<noteq> []"
  shows "\<exists>s'. ancestral_vertices_loop ids s = Raised (AssertionError []) s'"
  using assms
proof (induction ids arbitrary: s)
  case Nil
  then show ?case by simp
next
  case (Cons i ids)
  from Cons.prems(3) obtain v where v: "node_vectors (tree s) i = Some v" by auto
  then obtain nd where nd: "tree_get (tree s) i = Inr nd" "vectors nd = Some v" "i < nnodes (tree s)"
    using node_vectors_SomeD by blast
  show ?case
  proof (cases "to_vertices tr v = []")
    case False
    then show ?thesis
      using Cons.prems(1) nd by (simp add: Vertices_init_coords_only)
  next
    case True
    let ?s' = "s\<lparr>tree := tree_set (tree s) i (nd\<lparr>vertices := Some \<lparr>coords = [], colors = []\<rparr>\<rparr>)\<rparr>"
    have step: "ancestral_vertices_loop (i # ids) s = ancestral_vertices_loop ids ?s'"
      using Cons.prems(1) nd True by (simp add: Vertices_init_no_coords)
    have same: "\<And>j. j \<in> set ids \<Longrightarrow> node_vectors (tree ?s') j = node_vectors (tree s) j"
      using Cons.prems(2) nd(3) by (auto simp: node_vectors_tree_set)
    have "\<exists>s''. ancestral_vertices_loop ids ?s' = Raised (AssertionError []) s''"
    proof (rule Cons.IH)
      show "vv_translator ?s' = Some tr" using Cons.prems(1) by simp
      show "distinct ids" using Cons.prems(2) by simp
      show "\<forall>j\<in>set ids. node_vectors (tree ?s') j \<noteq> None"
        using Cons.prems(3) same by simp
      from Cons.prems(4) obtain k w where k: "k \<in> set (i # ids)"
        "node_vectors (tree s) k = Some w" "to_vertices tr w \<noteq> []" by blast
      with v True have "k \<in> set ids" by auto
      with k same show "\<exists>j\<in>set ids. \<exists>w. node_vectors (tree ?s') j = Some w \<and> to_vertices tr w \<noteq> []"
        by auto
    qed
    with step show ?thesis by simp
  qed
qed

lemma ancestral_vertices_inverse_loop_asserts:
  assumes "vv_translator s = Some tr"
    and "distinct ids"
    and "\<forall>i\<in>set ids. node_vectors (tree s) i \<noteq> None"
    and "\<exists>i\<in>set ids. \<exists>v. node_vectors (tree s) i = Some v \<and> to_vertices tr (vit v) \<noteq> []"
  shows "\<exists>s'. ancestral_vertices_inverse_loop vit ids s = Raised (AssertionError []) s'"
  using assms
proof (induction ids arbitrary: s)
  case Nil
  then show ?case by simp
next
  case (Cons i ids)
  from Cons.prems(3) obtain v where v: "node_vectors (tree s) i = Some v" by auto
  then obtain nd where nd: "tree_get (tree s) i = Inr nd" "vectors nd = Some v" "i < nnodes (tree s)"
    using node_vectors_SomeD by blast
  show ?case
  proof (cases "to_vertices tr (vit v) = []")
    case False
    then show ?thesis
      using Cons.prems(1) nd by (simp add: Vertices_init_coords_only)
  next
    case True
    let ?s' = "s\<lparr>tree := tree_set (tree s) i (nd\<lparr>vertices := Some \<lparr>coords = [], colors = []\<rparr>\<rparr>)\<rparr>"
    have step: "ancestral_vertices_inverse_loop vit (i # ids) s = ancestral_vertices_inverse_loop vit ids ?s'"
      using Cons.prems(1) nd True by (simp add: Vertices_init_no_coords)
    have same: "\<And>j. j \<in> set ids \<Longrightarrow> node_vectors (tree ?s') j = node_vectors (tree s) j"
      using Cons.prems(2) nd(3) by (auto simp: node_vectors_tree_set)
    have "\<exists>s''. ancestral_vertices_inverse_loop vit ids ?s' = Raised (AssertionError []) s''"
    proof (rule Cons.IH)
      show "vv_translator ?s' = Some tr" using Cons.prems(1) by simp
      show "distinct ids" using Cons.prems(2) by simp
      show "\<forall>j\<in>set ids. node_vectors (tree ?s') j \<noteq> None"
        using Cons.prems(3) same by simp
      from Cons.prems(4) obtain k w where k: "k \<in> set (i # ids)"
        "node_vectors (tree s) k = Some w" "to_vertices tr (vit w) \<noteq> []" by blast
      with v True have "k \<in> set ids" by auto
      with k same show "\<exists>j\<in>set ids. \<exists>w. node_vectors (tree ?s') j = Some w \<and> to_vertices tr (vit w) \<noteq> []"
        by auto
    qed
    with step show ?thesis by simp
  qed
qed

lemma build_ancestral_vertices_asserts:
  assumes "vv_translator s = Some tr"
    and "\<forall>i. ntips (tree s) \<le> i \<and> i < nnodes (tree s) \<longrightarrow> node_vectors (tree s) i \<noteq> None"
    and "ntips (tree s) \<le> k" and "k < nnodes (tree s)"
    and "node_vectors (tree s) k = Some v" and "reconstructed_coords s tr v \<noteq> []"
  shows "\<exists>s'. build_ancestral_vertices s = Raised (AssertionError []) s'"
proof -
  let ?ids = "[ntips (tree s) ..< nnodes (tree s)]"
  have d: "distinct ?ids" by simp
  have a: "\<forall>i\<in>set ?ids. node_vectors (tree s) i \<noteq> None" using assms(2) by simp
  have k: "k \<in> set ?ids" using assms(3,4) by simp
  show ?thesis
  proof (cases "vect_inverse_transform s")
    case None
    with assms(5,6) k
    have "\<exists>i\<in>set ?ids. \<exists>w. node_vectors (tree s) i = Some w \<and> to_vertices tr w \<noteq> []"
      by (auto simp: reconstructed_coords_def)
    from ancestral_vertices_loop_asserts [OF assms(1) d a this] None
    show ?thesis by (simp add: build_ancestral_vertices_def)
  next
    case (Some vit)
    with assms(5,6) k
    have "\<exists>i\<in>set ?ids. \<exists>w. node_vectors (tree s) i = Some w \<and> to_vertices tr (vit w) \<noteq> []"
      by (auto simp: reconstructed_coords_def)
    from ancestral_vertices_inverse_loop_asserts [OF assms(1) d a this] Some
    show ?thesis by (simp add: build_ancestral_vertices_def)
  qed
qed

lemma demo_fitted_vectors:
  "ntips (tree demo_fitted) = 3" "nnodes (tree demo_fitted) = 5"
  "node_vectors (tree demo_fitted) 3 = Some (Numeric \<lparr>shape = [1], flat = [2 / 1000]\<rparr>)"
  "node_vectors (tree demo_fitted) 4 = Some (Numeric \<lparr>shape = [1], flat = [100498 / 100000]\<rparr>)"
  by (simp_all add: demo_fitted_fields demo_symbolized_tree node_vectors_def tree_defs)

text \<open>
  Claim C3. \<^verbatim>\<open>Vertices(coords)\<close> with a non-empty \<open>coords\<close> and no colors raises
  the AssertionError of \<^verbatim>\<open>assert len(self.coords) == len(self.colors)\<close>. So does
  \<^verbatim>\<open>build_ancestral_vertices\<close>, which passes the reconstructed coordinates alone, as
  soon as the coordinates reconstructed for some ancestral node are not empty (the
  translator being there and every ancestral node having its vectors).
\<close>

theorem vertices_without_colors_assert:
  "(c \<noteq> [] \<longrightarrow> Vertices_init (Some c) None = Inl (AssertionError []))
   \<and> (vv_translator s = Some tr
      \<and> (\<forall>i. ntips (tree s) \<le> i \<and> i < nnodes (tree s) \<longrightarrow> node_vectors (tree s) i \<noteq> None)
      \<and> ntips (tree s) \<le> k \<and> k < nnodes (tree s)
      \<and> node_vectors (tree s) k = Some v \<and> reconstructed_coords s tr v \<noteq> []
      \<longrightarrow> (\<exists>s'. build_ancestral_vertices s = Raised (AssertionError []) s'))"
  using Vertices_init_coords_only build_ancestral_vertices_asserts by blast

theorem vertices_without_colors_assert_witness:
  "[[1, 0, 0 :: real]] \<noteq> []
   \<and> Vertices_init (Some [[1, 0, 0]]) None = Inl (AssertionError [])
   \<and> vv_translator demo_fitted = Some demo_translator
   \<and> node_vectors (tree demo_fitted) 4 \<noteq> None
   \<and> ntips (tree demo_fitted) \<le> 3 \<and> 3 < nnodes (tree demo_fitted)
   \<and> node_vectors (tree demo_fitted) 3 = Some (Numeric \<lparr>shape = [1], flat = [2 / 1000]\<rparr>)
   \<and> reconstructed_coords demo_fitted demo_translator (Numeric \<lparr>shape = [1], flat = [2 / 1000]\<rparr>)
       = [[2 / 1000, 0, 0]]
   \<and> (\<exists>s'. build_ancestral_vertices demo_fitted = Raised (AssertionError []) s')"
proof -
  have all: "\<forall>i. ntips (tree demo_fitted) \<le> i \<and> i < nnodes (tree demo_fitted)
          \<longrightarrow> node_vectors (tree demo_fitted) i \<noteq> None"
  proof (intro allI impI)
    fix i assume "ntips (tree demo_fitted) \<le> i \<and> i < nnodes (tree demo_fitted)"
    then have "i = 3 \<or> i = 4" by (simp add: demo_fitted_vectors) arith
    then show "node_vectors (tree demo_fitted) i \<noteq> None"
      by (auto simp: demo_fitted_vectors)
  qed
  have rc: "reconstructed_coords demo_fitted demo_translator (Numeric \<lparr>shape = [1], flat = [2 / 1000]\<rparr>)
       = [[2 / 1000, 0, 0]]"
    by (simp add: reconstructed_coords_def demo_fitted_fields demo_translator_def)
  note th = vertices_without_colors_assert [of "[[1, 0, 0]]" demo_fitted demo_translator 3
        "Numeric \<lparr>shape = [1], flat = [2 / 1000]\<rparr>"]
  have ne: "[[1, 0, 0 :: real]] \<noteq> []" by simp
  have tr: "vv_translator demo_fitted = Some demo_translator" by (rule demo_fitted_fields)
  have lo: "ntips (tree demo_fitted) \<le> 3" and hi: "3 < nnodes (tree demo_fitted)"
    by (simp_all add: demo_fitted_vectors)
  have v3: "node_vectors (tree demo_fitted) 3 = Some (Numeric \<lparr>shape = [1], flat = [2 / 1000]\<rparr>)"
    by (rule demo_fitted_vectors)
  have rne: "reconstructed_coords demo_fitted demo_translator (Numeric \<lparr>shape = [1], flat = [2 / 1000]\<rparr>) \<noteq> []"
    using rc by simp
  from th ne have a: "Vertices_init (Some [[1, 0, 0]]) None = Inl (AssertionError [])"
    by blast
  from th tr all lo hi v3 rne
  have b: "\<exists>s'. build_ancestral_vertices demo_fitted = Raised (AssertionError []) s'"
    by blast
  have v4: "node_vectors (tree demo_fitted) 4 \<noteq> None" by (simp add: demo_fitted_vectors)
  from ne a tr v4 lo hi v3 rc b show ?thesis by (intro conjI)
qed

subsection \<open>Construction: binding the shapes to the tips, pairing the transforms\<close>

lemma only_tip_vertices_differ_refl: "only_tip_vertices_differ t t"
  by (simp add: only_tip_vertices_differ_def)

lemma only_tip_vertices_differ_trans:
  "only_tip_vertices_differ t t1 \<Longrightarrow> only_tip_vertices_differ t1 t2 \<Longrightarrow> only_tip_vertices_differ t t2"
  by (simp add: only_tip_vertices_differ_def)

lemma only_tip_vertices_differ_set:
  assumes "i < ntips t"
  shows "only_tip_vertices_differ t (tree_set t i ((tips t ! i)\<lparr>vertices := w\<rparr>))"
  using assms
  by (simp add: only_tip_vertices_differ_def tree_set_def ntips_def map_update list_update_same_conv)

lemma only_tip_vertices_differ_ntips:
  "only_tip_vertices_differ t t' \<Longrightarrow> ntips t' = ntips t"
  unfolding only_tip_vertices_differ_def ntips_def
  by (metis length_map)

lemma only_tip_vertices_differ_name:
  assumes "only_tip_vertices_differ t t'" and "i < ntips t"
  shows "name (tips t' ! i) = name (tips t ! i)"
proof -
  have len: "length (tips t') = length (tips t)"
    using only_tip_vertices_differ_ntips [OF assms(1)] by (simp add: ntips_def)
  have "map (\<lambda>n. n\<lparr>vertices := None\<rparr>) (tips t') ! i = map (\<lambda>n. n\<lparr>vertices := None\<rparr>) (tips t) ! i"
    using assms(1) by (simp add: only_tip_vertices_differ_def)
  then have "(tips t' ! i)\<lparr>vertices := None\<rparr> = (tips t ! i)\<lparr>vertices := None\<rparr>"
    using assms(2) len by (simp add: ntips_def)
  then have "name ((tips t' ! i)\<lparr>vertices := None\<rparr>) = name ((tips t ! i)\<lparr>vertices := None\<rparr>)"
    by simp
  then show ?thesis by simp
qed

lemma tree_get_tip: "i < ntips t \<Longrightarrow> tree_get t i = Inr (tips t ! i)"
  by (simp add: tree_get_def ntips_def nnodes_def nth_append)

lemma map_shape_to_tip_loop_missing:
  assumes "\<forall>i\<in>set ids. i < ntips t"
    and "\<exists>i\<in>set ids. name (tips t ! i) \<notin> fst ` set shp"
  shows "\<exists>nm t'. map_shape_to_tip_loop shp ids t =
           Raised (AssertionError (''data must include all tips in the tree. Missing='' @ nm)) t'
         \<and> nm \<in> name ` set (tips t) \<and> nm \<notin> fst ` set shp \<and> only_tip_vertices_differ t t'"
  using assms
proof (induction ids arbitrary: t)
  case Nil
  then show ?case by simp
next
  case (Cons i ids)
  have i: "i < ntips t" using Cons.prems(1) by simp
  then have get: "tree_get t i = Inr (tips t ! i)" by (rule tree_get_tip)
  show ?case
  proof (cases "map_of shp (name (tips t ! i))")
    case None
    then have "name (tips t ! i) \<notin> fst ` set shp" by (simp add: map_of_eq_None_iff)
    moreover have "name (tips t ! i) \<in> name ` set (tips t)"
      using i by (simp add: ntips_def)
    ultimately show ?thesis
      using get None by (auto simp: only_tip_vertices_differ_refl)
  next
    case (Some vt)
    let ?t1 = "tree_set t i ((tips t ! i)\<lparr>vertices := Some vt\<rparr>)"
    have step: "map_shape_to_tip_loop shp (i # ids) t = map_shape_to_tip_loop shp ids ?t1"
      using get Some by simp
    have fr: "only_tip_vertices_differ t ?t1" using i by (rule only_tip_vertices_differ_set)
    have nt: "ntips ?t1 = ntips t" by simp
    have names: "\<And>j. j < ntips t \<Longrightarrow> name (tips ?t1 ! j) = name (tips t ! j)"
      using fr by (rule only_tip_vertices_differ_name)
    have present: "name (tips t ! i) \<in> fst ` set shp"
      using Some by (metis map_of_eq_None_iff option.distinct(1))
    have "\<exists>nm t'. map_shape_to_tip_loop shp ids ?t1 =
           Raised (AssertionError (''data must include all tips in the tree. Missing='' @ nm)) t'
         \<and> nm \<in> name ` set (tips ?t1) \<and> nm \<notin> fst ` set shp \<and> only_tip_vertices_differ ?t1 t'"
    proof (rule Cons.IH)
      show "\<forall>j\<in>set ids. j < ntips ?t1" using Cons.prems(1) by simp
      from Cons.prems(2) present obtain k where "k \<in> set ids" "name (tips t ! k) \<notin> fst ` set shp"
        by auto
      moreover from this Cons.prems(1) have "k < ntips t" by simp
      ultimately have "k \<in> set ids \<and> name (tips ?t1 ! k) \<notin> fst ` set shp"
        using names [of k] by simp
      then show "\<exists>j\<in>set ids. name (tips ?t1 ! j) \<notin> fst ` set shp"
        by blast
    qed
    then obtain nm t' where r: "map_shape_to_tip_loop shp ids ?t1 =
           Raised (AssertionError (''data must include all tips in the tree. Missing='' @ nm)) t'"
      "nm \<in> name ` set (tips ?t1)" "nm \<notin> fst ` set shp" "only_tip_vertices_differ ?t1 t'"
      by blast
    from r(2) obtain j where j: "j < length (tips ?t1)" "nm = name (tips ?t1 ! j)"
      by (auto simp: in_set_conv_nth)
    then have "j < ntips t" using nt by (simp add: ntips_def)
    then have "nm \<in> name ` set (tips t)"
      using j(2) names by (auto simp: ntips_def)
    from fr r(4) have "only_tip_vertices_differ t t'" by (rule only_tip_vertices_differ_trans)
    with step r(1,3) \<open>nm \<in> name ` set (tips t)\<close> show ?thesis
      by (intro exI [of _ nm] exI [of _ t']) simp
  qed
qed


text \<open>
  Claim C7. For every tree and every collection of samples: when some tip's name has
  no sample, \<^verbatim>\<open>PhyloShape(...)\<close> raises the AssertionError "data must include all tips
  in the tree. Missing=..." naming such a tip, whatever the other arguments are. No
  object is constructed, so no later stage can run, and the caller's tree differs
  from what it was at most in the \<^verbatim>\<open>vertices\<close> of its tips.
\<close>

theorem missing_tip_sample_raises:
  assumes "i < ntips t" and "name (tips t ! i) \<notin> fst ` set shp"
  shows "\<exists>nm t'. PhyloShape_init ext t shp m vt vit =
           InitRaised (AssertionError (''data must include all tips in the tree. Missing='' @ nm)) t'
         \<and> nm \<in> name ` set (tips t) \<and> nm \<notin> fst ` set shp \<and> only_tip_vertices_differ t t'"
proof -
  have "\<forall>j\<in>set [0 ..< ntips t]. j < ntips t" by simp
  moreover have "\<exists>j\<in>set [0 ..< ntips t]. name (tips t ! j) \<notin> fst ` set shp"
    using assms by auto
  ultimately have "\<exists>nm t'. map_shape_to_tip_loop shp [0 ..< ntips t] t =
           Raised (AssertionError (''data must include all tips in the tree. Missing='' @ nm)) t'
         \<and> nm \<in> name ` set (tips t) \<and> nm \<notin> fst ` set shp \<and> only_tip_vertices_differ t t'"
    by (rule map_shape_to_tip_loop_missing)
  then obtain nm t' where r: "map_shape_to_tip_loop shp [0 ..< ntips t] t =
           Raised (AssertionError (''data must include all tips in the tree. Missing='' @ nm)) t'"
      "nm \<in> name ` set (tips t)" "nm \<notin> fst ` set shp" "only_tip_vertices_differ t t'"
    by (elim exE conjE)
  then show ?thesis
    by (intro exI [of _ nm] exI [of _ t']) (simp add: PhyloShape_init_def map_shape_to_tip_def)
qed

theorem missing_tip_sample_raises_witness:
  "2 < ntips demo_tree \<and> name (tips demo_tree ! 2) \<notin> fst ` set (take 2 demo_shapes)
   \<and> (\<exists>nm t'. PhyloShape_init demo_ext demo_tree (take 2 demo_shapes) NoModel None None =
           InitRaised (AssertionError (''data must include all tips in the tree. Missing='' @ nm)) t'
         \<and> nm \<in> name ` set (tips demo_tree) \<and> nm \<notin> fst ` set (take 2 demo_shapes)
         \<and> only_tip_vertices_differ demo_tree t')"
proof -
  have a: "2 < ntips demo_tree" by (simp add: ntips_def demo_tree_def)
  have b: "name (tips demo_tree ! 2) \<notin> fst ` set (take 2 demo_shapes)"
    by (simp add: demo_tree_def demo_node_def demo_shapes_def)
  from missing_tip_sample_raises [OF a b, of demo_ext NoModel None None] a b
  show ?thesis by (intro conjI)
qed





subsection \<open>Compiling the formula\<close>

lemma variables_tip_vectors_loop:
  "variables (state_of (tip_vectors_loop ids s)) = variables s"
  by (induction ids arbitrary: s) (auto split: sum.splits option.splits)

lemma variables_assign_transformed:
  "variables (state_of (assign_transformed nvs s)) = variables s"
  by (induction nvs arbitrary: s) (auto split: sum.splits)

lemma variables_sym_loop:
  "variables (state_of (sym_loop vshape ids s)) = variables s"
  by (induction ids arbitrary: s) (auto split: sum.splits)

lemma variables_summarize_loop:
  "variables (state_of (summarize_loop x vshape n_vals ids go_p s)) = variables s"
  by (induction ids arbitrary: go_p s) (auto simp: Let_def split: sum.splits)

lemma variables_ancestral_vertices_loop:
  "variables (state_of (ancestral_vertices_loop ids s)) = variables s"
  by (induction ids arbitrary: s) (auto split: sum.splits option.splits)

lemma variables_ancestral_vertices_inverse_loop:
  "variables (state_of (ancestral_vertices_inverse_loop vit ids s)) = variables s"
  by (induction ids arbitrary: s) (auto simp: Let_def split: sum.splits option.splits)

lemma variables_build_vv_translator:
  "variables (state_of (build_vv_translator ext mode num_vs num_vt_iter s)) = variables s"
  by (auto simp: build_vv_translator_def Let_def split: list.splits)

lemma variables_build_tip_vectors:
  "variables (state_of (build_tip_vectors s)) = variables s"
proof (cases "vect_transform s")
  case None
  then show ?thesis by (simp add: build_tip_vectors_def variables_tip_vectors_loop)
next
  case (Some tf)
  show ?thesis
  proof (cases "collect_vectors_list s [0 ..< ntips (tree s)]")
    case (Inl e)
    then show ?thesis using Some by (simp add: build_tip_vectors_def)
  next
    case (Inr vl)
    have "variables (state_of (assign_transformed (enumerate 0 (tf vl)) s)) = variables s"
      by (rule variables_assign_transformed)
    then show ?thesis using Some Inr
      by (cases "assign_transformed (enumerate 0 (tf vl)) s")
        (auto simp: build_tip_vectors_def then_do_def split: sum.splits)
  qed
qed

lemma variables_sym_ancestral_vectors:
  "variables (state_of (sym_ancestral_vectors s)) = variables s"
  by (auto simp: sym_ancestral_vectors_def variables_sym_loop split: sum.splits)

lemma variables_functionalize_log_like:
  "variables (state_of (functionalize_log_like ext s)) = variables s"
  by (auto simp: functionalize_log_like_def split: sum.splits)

lemma variables_summarize_ml_result:
  "variables (state_of (summarize_ml_result s)) = variables s"
  by (auto simp: summarize_ml_result_def Let_def variables_summarize_loop
      split: option.splits sum.splits)

lemma variables_minimize_negloglike:
  "variables (state_of (minimize_negloglike ext num_proc s)) = variables s"
proof -
  have "\<And>r. variables (state_of (summarize_ml_result (s\<lparr>result := Some r\<rparr>))) = variables s"
    using variables_summarize_ml_result [of "s\<lparr>result := Some r\<rparr>" for r] by simp
  then show ?thesis
    by (auto simp: minimize_negloglike_def split: sum.splits list.splits prod.splits)
qed

lemma variables_build_ancestral_vertices:
  "variables (state_of (build_ancestral_vertices s)) = variables s"
  by (auto simp: build_ancestral_vertices_def variables_ancestral_vertices_loop
      variables_ancestral_vertices_inverse_loop split: option.splits)

lemma variables_PhyloShape_init:
  "PhyloShape_init ext t shp m vt vit = Constructed s0 \<Longrightarrow> variables s0 = []"
  by (cases m) (auto simp: PhyloShape_init_def split: outcome.splits if_splits)

text \<open>
  Claim C2. \<^verbatim>\<open>__variables\<close> is empty on a constructed object and no method but
  \<^verbatim>\<open>formularize_log_like\<close> changes it, so until the formula is built it is empty.
  On such an object \<^verbatim>\<open>functionalize_log_like\<close> fails loudly: \<^verbatim>\<open>lambdify\<close> refuses
  the empty list of arguments, NotImplementedError is raised, and the object is as it
  was, with no function installed.
\<close>

theorem functionalize_before_formula_raises:
  "(variables s = [] \<longrightarrow> functionalize_log_like ext s = Raised NotImplementedError s)
   \<and> (PhyloShape_init ext t shp m vt vit = Constructed s0 \<longrightarrow> variables s0 = [])
   \<and> variables (state_of (build_vv_translator ext mode num_vs num_vt_iter s)) = variables s
   \<and> variables (state_of (build_tip_vectors s)) = variables s
   \<and> variables (state_of (sym_ancestral_vectors s)) = variables s
   \<and> variables (state_of (functionalize_log_like ext s)) = variables s
   \<and> variables (state_of (minimize_negloglike ext num_proc s)) = variables s
   \<and> variables (state_of (build_ancestral_vertices s)) = variables s"
proof -
  have "variables s = [] \<longrightarrow> functionalize_log_like ext s = Raised NotImplementedError s"
    by (simp add: functionalize_log_like_def symengine_lambdify_def)
  moreover have "PhyloShape_init ext t shp m vt vit = Constructed s0 \<longrightarrow> variables s0 = []"
    using variables_PhyloShape_init by blast
  ultimately show ?thesis
    by (simp only: variables_build_vv_translator variables_build_tip_vectors
        variables_sym_ancestral_vectors variables_functionalize_log_like
        variables_minimize_negloglike variables_build_ancestral_vertices simp_thms)
qed

theorem functionalize_before_formula_raises_witness:
  "PhyloShape_init demo_ext demo_tree demo_shapes NoModel None None = Constructed demo_object
   \<and> variables demo_object = []
   \<and> functionalize_log_like demo_ext demo_object = Raised NotImplementedError demo_object
   \<and> negloglike_func (state_of (functionalize_log_like demo_ext demo_object)) = None"
proof -
  have o: "variables demo_object = []" "negloglike_func demo_object = None"
    by (simp_all add: demo_object_def)
  have r: "functionalize_log_like demo_ext demo_object = Raised NotImplementedError demo_object"
    by (rule functionalize_before_formula_raises [of demo_object demo_ext,
          THEN conjunct1, THEN mp, OF o(1)])
  then have n: "negloglike_func (state_of (functionalize_log_like demo_ext demo_object)) = None"
    using o(2) by simp
  from PhyloShape_init_demo o(1) r n show ?thesis by (intro conjI)
qed

subsection \<open>The optimization loop\<close>

lemma optimize_loop_all_fail:
  assumes "\<forall>j. c \<le> j \<and> j < 200 \<longrightarrow> (\<exists>r. attempt ext s j = Inr r \<and> \<not> success r)"
    and "c \<le> 200"
  shows "optimize_loop ext s c sr hist =
           Inr (200, sr, hist @ map (\<lambda>j. projr (attempt ext s j)) [c ..< 200])"
  using assms
proof (induction "200 - c" arbitrary: c hist)
  case 0
  then have "c = 200" by simp
  then show ?case by (simp add: optimize_loop.simps)
next
  case (Suc n)
  then have c: "c < 200" by simp
  with Suc.prems(1) obtain r where r: "attempt ext s c = Inr r" "\<not> success r" by auto
  have "optimize_loop ext s (c + 1) sr (hist @ [r]) =
          Inr (200, sr, (hist @ [r]) @ map (\<lambda>j. projr (attempt ext s j)) [c + 1 ..< 200])"
  proof (rule Suc.hyps(1))
    show "n = 200 - (c + 1)" using Suc.hyps(2) by simp
    show "\<forall>j. c + 1 \<le> j \<and> j < 200 \<longrightarrow> (\<exists>r. attempt ext s j = Inr r \<and> \<not> success r)"
      using Suc.prems(1) by simp
    show "c + 1 \<le> 200" using c by simp
  qed
  moreover have "[c ..< 200] = c # [c + 1 ..< 200]" using c by (simp add: upt_conv_Cons)
  ultimately show ?case
    using c r by (subst optimize_loop.simps) simp
qed

lemma optimize_loop_first_success:
  assumes "k < 200" and "c \<le> k"
    and "\<forall>j. c \<le> j \<and> j < k \<longrightarrow> (\<exists>r. attempt ext s j = Inr r \<and> \<not> success r)"
    and "attempt ext s k = Inr rk" and "success rk"
  shows "optimize_loop ext s c sr hist =
           Inr (k, sr @ [rk], hist @ map (\<lambda>j. projr (attempt ext s j)) [c ..< k] @ [rk])"
  using assms(2,3)
proof (induction "k - c" arbitrary: c hist)
  case 0
  then have "c = k" by simp
  then show ?case
    using assms(1,4,5) by (subst optimize_loop.simps) simp
next
  case (Suc n)
  then have c: "c < k" by simp
  with Suc.prems(2) obtain r where r: "attempt ext s c = Inr r" "\<not> success r" by auto
  have "optimize_loop ext s (c + 1) sr (hist @ [r]) =
          Inr (k, sr @ [rk], (hist @ [r]) @ map (\<lambda>j. projr (attempt ext s j)) [c + 1 ..< k] @ [rk])"
  proof (rule Suc.hyps(1))
    show "n = k - (c + 1)" using Suc.hyps(2) by simp
    show "c + 1 \<le> k" using c by simp
    show "\<forall>j. c + 1 \<le> j \<and> j < k \<longrightarrow> (\<exists>r. attempt ext s j = Inr r \<and> \<not> success r)"
      using Suc.prems(2) by simp
  qed
  moreover have "[c ..< k] = c # [c + 1 ..< k]" using c by (simp add: upt_conv_Cons)
  moreover have "c < 200" using c assms(1) by simp
  ultimately show ?case
    using r by (subst optimize_loop.simps) simp
qed

lemma summarize_loop_result:
  "result (state_of (summarize_loop x vshape n_vals ids go_p s)) = result s"
  by (induction ids arbitrary: go_p s) (auto simp: Let_def split: sum.splits)

lemma summarize_ml_result_result:
  "result (state_of (summarize_ml_result s)) = result s"
  by (auto simp: summarize_ml_result_def Let_def summarize_loop_result split: option.splits sum.splits)

lemma failing_attempt:
  "attempt failing_ext demo_compiled k =
     Inr \<lparr>success = False,
          res_fun = hd (lambdify demo_ext (variables demo_compiled)
                          [Neg (loglike_form demo_compiled)] (demo_initials k)),
          res_x = demo_initials k\<rparr>"
proof -
  have "\<And>n. np_random_random failing_ext k n = np_random_random demo_ext k n"
    by (simp add: np_random_random_def failing_ext_def)
  moreover have "perturb failing_ext = perturb demo_ext"
    by (rule ext) (simp add: perturb_def failing_ext_def)
  then have "\<And>n xs. perturb_tail failing_ext n xs = perturb_tail demo_ext n xs"
    by (simp add: perturb_tail_def)
  ultimately
  have "propose_initials failing_ext demo_compiled k = propose_initials demo_ext demo_compiled k"
    by (simp only: propose_initials_def)
  then show ?thesis
    by (simp add: attempt_def demo_propose_initials demo_compiled_func failing_ext_def)
qed

text \<open>
  Claim C5. When each of the 200 attempts returns a result that reports no success,
  the loop makes exactly these 200 attempts and stops, and \<^verbatim>\<open>minimize_negloglike\<close>
  raises \<^verbatim>\<open>Exception("optimization failed!")\<close> leaving the object as it was: the
  tree, hence every ancestral node, is unchanged and no result is stored.
\<close>

theorem exhausted_attempts_raise:
  assumes "\<forall>j<200. \<exists>r. attempt ext s j = Inr r \<and> \<not> success r"
  shows "optimize_loop ext s 0 [] [] =
           Inr (200, [], map (\<lambda>j. projr (attempt ext s j)) [0 ..< 200])
         \<and> minimize_negloglike ext num_proc s = Raised (Exception ''optimization failed!'') s
         \<and> tree (state_of (minimize_negloglike ext num_proc s)) = tree s
         \<and> result (state_of (minimize_negloglike ext num_proc s)) = result s"
proof -
  have "optimize_loop ext s 0 [] [] =
           Inr (200, [], [] @ map (\<lambda>j. projr (attempt ext s j)) [0 ..< 200])"
    by (rule optimize_loop_all_fail) (use assms in simp_all)
  then show ?thesis by (simp add: minimize_negloglike_def)
qed

theorem exhausted_attempts_raise_witness:
  "list_all (\<lambda>j. \<not> success (projr (attempt failing_ext demo_compiled j))) [0 ..< 200]
   \<and> minimize_negloglike failing_ext 1 demo_compiled
       = Raised (Exception ''optimization failed!'') demo_compiled
   \<and> tree (state_of (minimize_negloglike failing_ext 1 demo_compiled)) = tree demo_compiled"
proof -
  have a: "\<forall>j<200. \<exists>r. attempt failing_ext demo_compiled j = Inr r \<and> \<not> success r"
    by (simp add: failing_attempt)
  have a': "list_all (\<lambda>j. \<not> success (projr (attempt failing_ext demo_compiled j))) [0 ..< 200]"
    by (simp add: failing_attempt list_all_iff)
  from exhausted_attempts_raise [OF a, of 1] a' show ?thesis by simp
qed

text \<open>
  Claim C6. When attempt \<open>k\<close> is the first whose result reports success, the loop is
  left at once: the attempts made are those of \<open>0, ..., k\<close> and no other,
  \<open>success_runs\<close> holds that one result, and it is the result that
  \<^verbatim>\<open>minimize_negloglike\<close> stores and unpacks.
\<close>

theorem first_success_wins:
  assumes "k < 200"
    and "\<forall>j<k. \<exists>r. attempt ext s j = Inr r \<and> \<not> success r"
    and "attempt ext s k = Inr rk" and "success rk"
  shows "optimize_loop ext s 0 [] [] =
           Inr (k, [rk], map (\<lambda>j. projr (attempt ext s j)) [0 ..< k] @ [rk])
         \<and> minimize_negloglike ext num_proc s = summarize_ml_result (s\<lparr>result := Some rk\<rparr>)
         \<and> result (state_of (minimize_negloglike ext num_proc s)) = Some rk"
proof -
  have "optimize_loop ext s 0 [] [] =
           Inr (k, [] @ [rk], [] @ map (\<lambda>j. projr (attempt ext s j)) [0 ..< k] @ [rk])"
    by (rule optimize_loop_first_success) (use assms in simp_all)
  then show ?thesis by (simp add: minimize_negloglike_def summarize_ml_result_result)
qed

theorem first_success_wins_witness:
  "(2::nat) < 200
   \<and> attempt demo_ext demo_compiled 0 = Inr (demo_run 0) \<and> \<not> success (demo_run 0)
   \<and> attempt demo_ext demo_compiled 1 = Inr (demo_run 1) \<and> \<not> success (demo_run 1)
   \<and> attempt demo_ext demo_compiled 2 = Inr (demo_run 2) \<and> success (demo_run 2)
   \<and> optimize_loop demo_ext demo_compiled 0 [] [] =
        Inr (2, [demo_run 2], [demo_run 0, demo_run 1, demo_run 2])
   \<and> result (state_of (minimize_negloglike demo_ext 1 demo_compiled)) = Some (demo_run 2)"
proof -
  have a: "(2::nat) < 200" by simp
  have b: "\<forall>j<2. \<exists>r. attempt demo_ext demo_compiled j = Inr r \<and> \<not> success r"
    by (simp add: demo_attempt demo_run_fields)
  have c: "attempt demo_ext demo_compiled 2 = Inr (demo_run 2)" by (rule demo_attempt)
  have d: "success (demo_run 2)" by (simp add: demo_run_fields)
  have e: "map (\<lambda>j. projr (attempt demo_ext demo_compiled j)) [0 ..< 2] = [demo_run 0, demo_run 1]"
    by (simp add: demo_attempt upt_rec)
  note th = first_success_wins [OF a b c d, of 1]
  from th have "optimize_loop demo_ext demo_compiled 0 [] [] =
      Inr (2, [demo_run 2], map (\<lambda>j. projr (attempt demo_ext demo_compiled j)) [0 ..< 2] @ [demo_run 2])"
    by (rule conjunct1)
  then have f: "optimize_loop demo_ext demo_compiled 0 [] [] =
        Inr (2, [demo_run 2], [demo_run 0, demo_run 1, demo_run 2])"
    by (simp only: e append.simps)
  from th have g: "result (state_of (minimize_negloglike demo_ext 1 demo_compiled)) = Some (demo_run 2)"
    by (elim conjE)
  have b0: "attempt demo_ext demo_compiled 0 = Inr (demo_run 0)" "\<not> success (demo_run 0)"
    and b1: "attempt demo_ext demo_compiled 1 = Inr (demo_run 1)" "\<not> success (demo_run 1)"
    by (simp_all add: demo_attempt demo_run_fields)
  from a b0 b1 c d f g show ?thesis by (intro conjI)
qed

subsection \<open>The formula and the order of the variables\<close>

lemma eval_expr_foldl_Add:
  "eval_expr env fi (foldl Add a ts) = eval_expr env fi a + sum_list (map (eval_expr env fi) ts)"
  by (induction ts arbitrary: a) simp_all

lemma branch_term_loglike_form [simp]:
  "branch_term lf (s\<lparr>loglike_form := e\<rparr>) = branch_term lf s"
  by (rule ext) (simp add: branch_term_def cong: sum.case_cong option.case_cong)

lemma branch_term_root: "is_root (tree s) i \<Longrightarrow> branch_term lf s i = None"
  by (auto simp: branch_term_def is_root_def split: sum.splits)

lemma formularize_loop_sum:
  assumes "\<forall>i\<in>set ids. i < nnodes (tree s) \<and> (\<not> is_root (tree s) i \<longrightarrow> branch_term lf s i \<noteq> None)"
  shows "formularize_loop lf ids s =
           Done (s\<lparr>loglike_form := foldl Add (loglike_form s) (List.map_filter (branch_term lf s) ids)\<rparr>)"
  using assms
proof (induction ids arbitrary: s)
  case Nil
  then show ?case by (simp add: List.map_filter_simps)
next
  case (Cons i ids)
  from Cons.prems have i: "i < nnodes (tree s)" by simp
  then obtain nd where nd: "tree_get (tree s) i = Inr nd" by (simp add: tree_get_def)
  have rest: "\<forall>j\<in>set ids. j < nnodes (tree s) \<and> (\<not> is_root (tree s) j \<longrightarrow> branch_term lf s j \<noteq> None)"
    using Cons.prems by simp
  show ?case
  proof (cases "up nd")
    case None
    then have "branch_term lf s i = None" using nd by (simp add: branch_term_def)
    moreover have "formularize_loop lf (i # ids) s = formularize_loop lf ids s"
      using nd None by simp
    ultimately show ?thesis
      using Cons.IH [OF rest] by (simp add: List.map_filter_simps)
  next
    case (Some p)
    then have "\<not> is_root (tree s) i" using nd by (simp add: is_root_def)
    with Cons.prems obtain t where t: "branch_term lf s i = Some t" by auto
    with nd Some obtain parent fs ts where p: "tree_get (tree s) p = Inr parent"
      "vectors parent = Some fs" "vectors nd = Some ts"
      "t = form_log_like (model s) (node_dist nd) fs ts lf"
      by (auto simp: branch_term_def node_vectors_def split: sum.splits option.splits)
    let ?s1 = "s\<lparr>loglike_form := Add (loglike_form s) t\<rparr>"
    have step: "formularize_loop lf (i # ids) s = formularize_loop lf ids ?s1"
      using nd Some p by simp
    have "formularize_loop lf ids ?s1 =
           Done (?s1\<lparr>loglike_form := foldl Add (loglike_form ?s1) (List.map_filter (branch_term lf ?s1) ids)\<rparr>)"
      by (rule Cons.IH) (use rest in simp)
    with step t show ?thesis by (simp add: List.map_filter_simps)
  qed
qed

lemma extend_variables_loop_concat:
  assumes "\<forall>i\<in>set ids. node_symbols_of (tree s) i \<noteq> None"
  shows "extend_variables_loop ids s =
           Done (s\<lparr>variables := variables s @ concat (map (symbols_flat (tree s)) ids)\<rparr>)"
  using assms
proof (induction ids arbitrary: s)
  case Nil
  then show ?case by simp
next
  case (Cons i ids)
  then obtain a where a: "node_symbols_of (tree s) i = Some a" by auto
  then obtain nd where nd: "tree_get (tree s) i = Inr nd" "vectors_symbols nd = Some a"
    by (auto simp: node_symbols_of_def split: sum.splits)
  let ?s1 = "s\<lparr>variables := variables s @ flat a\<rparr>"
  have "extend_variables_loop ids ?s1 =
           Done (?s1\<lparr>variables := variables ?s1 @ concat (map (symbols_flat (tree ?s1)) ids)\<rparr>)"
    by (rule Cons.IH) (use Cons.prems in simp)
  moreover have "symbols_flat (tree s) i = flat a" using a by (simp add: symbols_flat_def)
  ultimately show ?case using nd by simp
qed

lemma update_variables_packing:
  assumes "\<forall>i\<in>set [ntips (tree s) ..< nnodes (tree s)]. node_symbols_of (tree s) i \<noteq> None"
  shows "update_variables s =
           Done (s\<lparr>variables := get_parameters (model s) @ ancestral_symbols (tree s)\<rparr>)"
  using extend_variables_loop_concat [of "[ntips (tree s) ..< nnodes (tree s)]"
      "s\<lparr>variables := [] @ get_parameters (model s)\<rparr>"] assms
  by (simp add: update_variables_def ancestral_symbols_def)

lemma demo_branch_terms:
  "List.map_filter (branch_term (s_log demo_ext) demo_symbolized) (traverse (tree demo_symbolized)) =
     [Add (Fn ''log'' [Mul (Const 1) (Sym ''sigma'')]) (Fn ''sq_dist'' [Sym ''4_0'', Sym ''3_0'']),
      Add (Fn ''log'' [Mul (Const 2) (Sym ''sigma'')]) (Fn ''sq_dist'' [Sym ''4_0'', Const 4]),
      Add (Fn ''log'' [Mul (Const 1) (Sym ''sigma'')]) (Fn ''sq_dist'' [Sym ''3_0'', Const 1]),
      Add (Fn ''log'' [Mul (Const 1) (Sym ''sigma'')]) (Fn ''sq_dist'' [Sym ''3_0'', Const 2])]"
  by (simp add: List.map_filter_simps branch_term_def node_vectors_def demo_symbolized_tree
      demo_symbolized_rest tree_defs demo_model_def demo_ext_fields)

lemma demo_roots:
  "map (is_root (tree demo_symbolized)) (traverse (tree demo_symbolized)) =
     [True, False, False, False, False]"
  by (simp add: is_root_def demo_symbolized_tree tree_defs)

text \<open>
  Claim C10. When every node of the traversal is a node of the tree and every
  non-root node and its parent have their vectors (and the ancestral nodes their
  symbols, for the variables), \<^verbatim>\<open>formularize_log_like\<close> returns with
  \<^verbatim>\<open>loglike_form\<close> the running sum, started at 0 and taken in the order of the
  traversal, of the model's term for each non-root node: the term of its branch
  length, its parent's vectors and its own vectors. Exactly the root nodes contribute
  no term, and the value of the formula is the sum of the values of the terms.
\<close>

theorem formularize_running_sum:
  assumes "\<forall>i\<in>set (traverse (tree s)).
             i < nnodes (tree s) \<and> (\<not> is_root (tree s) i \<longrightarrow> branch_term log_f s i \<noteq> None)"
    and "\<forall>i\<in>set [ntips (tree s) ..< nnodes (tree s)]. node_symbols_of (tree s) i \<noteq> None"
  shows "\<exists>s'. formularize_log_like log_f s = Done s'
           \<and> loglike_form s' =
               foldl Add (Const 0) (List.map_filter (branch_term log_f s) (traverse (tree s)))
           \<and> (\<forall>i\<in>set (traverse (tree s)). (branch_term log_f s i = None) = is_root (tree s) i)
           \<and> (\<forall>env fi. eval_expr env fi (loglike_form s') =
                 sum_list (map (eval_expr env fi)
                   (List.map_filter (branch_term log_f s) (traverse (tree s)))))"
proof -
  let ?terms = "List.map_filter (branch_term log_f s) (traverse (tree s))"
  let ?s0 = "s\<lparr>loglike_form := Const 0\<rparr>"
  let ?s1 = "s\<lparr>loglike_form := foldl Add (Const 0) ?terms\<rparr>"
  have "formularize_loop log_f (traverse (tree s)) ?s0 =
          Done (?s0\<lparr>loglike_form := foldl Add (loglike_form ?s0)
                  (List.map_filter (branch_term log_f ?s0) (traverse (tree s)))\<rparr>)"
    by (rule formularize_loop_sum) (use assms(1) in simp)
  then have loop: "formularize_loop log_f (traverse (tree s)) ?s0 = Done ?s1" by simp
  have upd: "update_variables ?s1 =
          Done (?s1\<lparr>variables := get_parameters (model ?s1) @ ancestral_symbols (tree ?s1)\<rparr>)"
    by (rule update_variables_packing) (use assms(2) in simp)
  have r: "formularize_log_like log_f s =
          Done (?s1\<lparr>variables := get_parameters (model s) @ ancestral_symbols (tree s)\<rparr>)"
    using loop upd by (simp add: formularize_log_like_def then_do_def)
  have roots: "\<forall>i\<in>set (traverse (tree s)). (branch_term log_f s i = None) = is_root (tree s) i"
    using assms(1) branch_term_root by blast
  show ?thesis
    using r roots by (simp add: eval_expr_foldl_Add)
qed

theorem formularize_running_sum_witness:
  "map (is_root (tree demo_symbolized)) (traverse (tree demo_symbolized)) =
     [True, False, False, False, False]
   \<and> (\<exists>s'. formularize_log_like (s_log demo_ext) demo_symbolized = Done s'
         \<and> loglike_form s' = foldl Add (Const 0)
             [Add (Fn ''log'' [Mul (Const 1) (Sym ''sigma'')]) (Fn ''sq_dist'' [Sym ''4_0'', Sym ''3_0'']),
              Add (Fn ''log'' [Mul (Const 2) (Sym ''sigma'')]) (Fn ''sq_dist'' [Sym ''4_0'', Const 4]),
              Add (Fn ''log'' [Mul (Const 1) (Sym ''sigma'')]) (Fn ''sq_dist'' [Sym ''3_0'', Const 1]),
              Add (Fn ''log'' [Mul (Const 1) (Sym ''sigma'')]) (Fn ''sq_dist'' [Sym ''3_0'', Const 2])])"
proof -
  have a: "\<forall>i\<in>set (traverse (tree demo_symbolized)).
             i < nnodes (tree demo_symbolized)
             \<and> (\<not> is_root (tree demo_symbolized) i
                  \<longrightarrow> branch_term (s_log demo_ext) demo_symbolized i \<noteq> None)"
    by (simp add: is_root_def branch_term_def node_vectors_def demo_symbolized_tree tree_defs)
  have b: "\<forall>i\<in>set [ntips (tree demo_symbolized) ..< nnodes (tree demo_symbolized)].
             node_symbols_of (tree demo_symbolized) i \<noteq> None"
    by (simp add: node_symbols_of_def demo_symbolized_tree tree_defs upt_rec)
  from formularize_running_sum [OF a b]
  obtain s' where s': "formularize_log_like (s_log demo_ext) demo_symbolized = Done s'"
    "loglike_form s' = foldl Add (Const 0)
       (List.map_filter (branch_term (s_log demo_ext) demo_symbolized) (traverse (tree demo_symbolized)))"
    by (elim exE conjE)
  have "\<exists>s'. formularize_log_like (s_log demo_ext) demo_symbolized = Done s'
         \<and> loglike_form s' = foldl Add (Const 0)
             [Add (Fn ''log'' [Mul (Const 1) (Sym ''sigma'')]) (Fn ''sq_dist'' [Sym ''4_0'', Sym ''3_0'']),
              Add (Fn ''log'' [Mul (Const 2) (Sym ''sigma'')]) (Fn ''sq_dist'' [Sym ''4_0'', Const 4]),
              Add (Fn ''log'' [Mul (Const 1) (Sym ''sigma'')]) (Fn ''sq_dist'' [Sym ''3_0'', Const 1]),
              Add (Fn ''log'' [Mul (Const 1) (Sym ''sigma'')]) (Fn ''sq_dist'' [Sym ''3_0'', Const 2])]"
    using s' unfolding demo_branch_terms by (intro exI [of _ s'] conjI)
  with demo_roots show ?thesis by (intro conjI)
qed

subsection \<open>Packing and unpacking the free variables\<close>

lemma concat_block:
  assumes "\<forall>b\<in>set bs. length b = n" and "j < length bs"
  shows "take n (drop (j * n) (concat bs)) = bs ! j"
  using assms
proof (induction bs arbitrary: j)
  case Nil
  then show ?case by simp
next
  case (Cons b bs)
  then have b: "length b = n" by simp
  show ?case
  proof (cases j)
    case 0
    then show ?thesis using b by simp
  next
    case (Suc k)
    then have "k < length bs" using Cons.prems(2) by simp
    moreover have "\<forall>c\<in>set bs. length c = n" using Cons.prems(1) by simp
    ultimately have "take n (drop (k * n) (concat bs)) = bs ! k" by (rule Cons.IH [rotated])
    moreover have "drop (j * n) (concat (b # bs)) = drop (k * n) (concat bs)"
      using Suc b by simp
    ultimately show ?thesis using Suc by simp
  qed
qed

lemma length_node_symbols: "length (flat (node_symbols i vshape)) = np_prod vshape"
  by (simp add: node_symbols_def)

lemma slice_chunk:
  assumes "go_p + n \<le> length x"
  shows "drop go_p (take (go_p + n) x) = take n (drop go_p x)"
    and "length (drop go_p (take (go_p + n) x)) = n"
  using assms by (simp_all add: drop_take)

lemma summarize_loop_unpacks:
  assumes "vshape \<noteq> []" and "distinct ids" and "\<forall>i\<in>set ids. i < nnodes (tree s)"
    and "go_p + length ids * n \<le> length x"
  shows "\<exists>s'. summarize_loop x vshape n ids go_p s = Done s'
          \<and> (\<forall>j<length ids. node_vectors (tree s') (ids ! j) =
                Some (Numeric \<lparr>shape = vshape, flat = take n (drop (go_p + j * n) x)\<rparr>))
          \<and> (\<forall>i. i \<notin> set ids \<longrightarrow> node_vectors (tree s') i = node_vectors (tree s) i)"
  using assms(2,3,4)
proof (induction ids arbitrary: s go_p)
  case Nil
  then show ?case by simp
next
  case (Cons i ids)
  have i: "i < nnodes (tree s)" using Cons.prems(2) by simp
  then obtain nd where nd: "tree_get (tree s) i = Inr nd" by (simp add: tree_get_def)
  have fit: "go_p + n \<le> length x" using Cons.prems(3) by simp
  let ?chunk = "take n (drop go_p x)"
  let ?s1 = "s\<lparr>tree := tree_set (tree s) i
                (nd\<lparr>vectors := Some (Numeric \<lparr>shape = vshape, flat = ?chunk\<rparr>)\<rparr>)\<rparr>"
  have c1: "drop go_p (take (go_p + n) x) = ?chunk" using fit by (rule slice_chunk)
  have c2: "length ?chunk = n" using fit by simp
  have step: "summarize_loop x vshape n (i # ids) go_p s =
                summarize_loop x vshape n ids (go_p + n) ?s1"
    unfolding summarize_loop.simps Let_def c1 using assms(1) nd c2 by simp
  have "\<exists>s'. summarize_loop x vshape n ids (go_p + n) ?s1 = Done s'
          \<and> (\<forall>j<length ids. node_vectors (tree s') (ids ! j) =
                Some (Numeric \<lparr>shape = vshape, flat = take n (drop ((go_p + n) + j * n) x)\<rparr>))
          \<and> (\<forall>k. k \<notin> set ids \<longrightarrow> node_vectors (tree s') k = node_vectors (tree ?s1) k)"
  proof (rule Cons.IH)
    show "distinct ids" using Cons.prems(1) by simp
    show "\<forall>k\<in>set ids. k < nnodes (tree ?s1)" using Cons.prems(2) by simp
    show "go_p + n + length ids * n \<le> length x" using Cons.prems(3) by simp
  qed
  then obtain s' where s': "summarize_loop x vshape n ids (go_p + n) ?s1 = Done s'"
    and tl: "\<forall>j<length ids. node_vectors (tree s') (ids ! j) =
                Some (Numeric \<lparr>shape = vshape, flat = take n (drop ((go_p + n) + j * n) x)\<rparr>)"
    and fr: "\<forall>k. k \<notin> set ids \<longrightarrow> node_vectors (tree s') k = node_vectors (tree ?s1) k"
    by blast
  have s1: "\<And>k. node_vectors (tree ?s1) k =
       (if k = i then Some (Numeric \<lparr>shape = vshape, flat = ?chunk\<rparr>) else node_vectors (tree s) k)"
    using i by (simp add: node_vectors_tree_set)
  have hd: "node_vectors (tree s') i = Some (Numeric \<lparr>shape = vshape, flat = ?chunk\<rparr>)"
    using fr Cons.prems(1) s1 by simp
  have all: "\<forall>j<length (i # ids). node_vectors (tree s') ((i # ids) ! j) =
                Some (Numeric \<lparr>shape = vshape, flat = take n (drop (go_p + j * n) x)\<rparr>)"
  proof (intro allI impI)
    fix j assume j: "j < length (i # ids)"
    show "node_vectors (tree s') ((i # ids) ! j) =
                Some (Numeric \<lparr>shape = vshape, flat = take n (drop (go_p + j * n) x)\<rparr>)"
    proof (cases j)
      case 0
      then show ?thesis using hd by simp
    next
      case (Suc k)
      then have "k < length ids" using j by simp
      with tl have "node_vectors (tree s') (ids ! k) =
                Some (Numeric \<lparr>shape = vshape, flat = take n (drop ((go_p + n) + k * n) x)\<rparr>)"
        by simp
      then show ?thesis using Suc by (simp add: add.assoc)
    qed
  qed
  have frame: "\<forall>k. k \<notin> set (i # ids) \<longrightarrow> node_vectors (tree s') k = node_vectors (tree s) k"
    using fr s1 by simp
  from step s' all frame show ?case by simp
qed

lemma first_vectors_shape_tree:
  "tree s' = tree s \<Longrightarrow> first_vectors_shape s' = first_vectors_shape s"
  by (simp add: first_vectors_shape_def)

lemma symbolized_packing:
  assumes "symbolized s vshape"
  shows "update_variables s =
           Done (s\<lparr>variables := get_parameters (model s) @
                   concat (map (\<lambda>i. flat (node_symbols i vshape))
                     [ntips (tree s) ..< nnodes (tree s)])\<rparr>)"
proof -
  let ?ids = "[ntips (tree s) ..< nnodes (tree s)]"
  have syms: "\<forall>i\<in>set ?ids. node_symbols_of (tree s) i = Some (node_symbols i vshape)"
    using assms by (simp add: symbolized_def list_all_iff)
  then have "\<forall>i\<in>set ?ids. node_symbols_of (tree s) i \<noteq> None" by simp
  then have "update_variables s =
           Done (s\<lparr>variables := get_parameters (model s) @ ancestral_symbols (tree s)\<rparr>)"
    by (rule update_variables_packing)
  moreover have "map (symbols_flat (tree s)) ?ids = map (\<lambda>i. flat (node_symbols i vshape)) ?ids"
    using syms by (intro map_cong refl) (simp add: symbols_flat_def)
  ultimately show ?thesis by (simp add: ancestral_symbols_def)
qed

lemma packed_block:
  assumes "a \<le> i" and "i < b"
  shows "take (np_prod vshape) (drop (length ps + (i - a) * np_prod vshape)
           (ps @ concat (map (\<lambda>i. flat (node_symbols i vshape)) [a ..< b])))
         = flat (node_symbols i vshape)"
proof -
  let ?bs = "map (\<lambda>i. flat (node_symbols i vshape)) [a ..< b]"
  have "\<forall>c\<in>set ?bs. length c = np_prod vshape" by (auto simp: length_node_symbols)
  moreover have j: "i - a < length ?bs" using assms by simp
  ultimately have "take (np_prod vshape) (drop ((i - a) * np_prod vshape) (concat ?bs)) = ?bs ! (i - a)"
    by (rule concat_block)
  moreover have "[a ..< b] ! (i - a) = i" using assms by (simp add: nth_upt)
  then have "?bs ! (i - a) = flat (node_symbols i vshape)" using j by simp
  ultimately show ?thesis by simp
qed

lemma node_symbols_of_tree_set:
  "i < nnodes t \<Longrightarrow>
     node_symbols_of (tree_set t i n) j = (if j = i then vectors_symbols n else node_symbols_of t j)"
  by (simp add: node_symbols_of_def tree_get_tree_set)

lemma sym_loop_establishes:
  assumes "vshape \<noteq> []" and "distinct ids" and "\<forall>i\<in>set ids. i < nnodes (tree s)"
  shows "\<exists>s'. sym_loop vshape ids s = Done s'
     \<and> ntips (tree s') = ntips (tree s) \<and> nnodes (tree s') = nnodes (tree s)
     \<and> (\<forall>i\<in>set ids. node_symbols_of (tree s') i = Some (node_symbols i vshape)
            \<and> node_vectors (tree s') i = Some (Symbolic (node_symbols i vshape)))
     \<and> (\<forall>i. i \<notin> set ids \<longrightarrow> tree_get (tree s') i = tree_get (tree s) i)"
  using assms(2,3)
proof (induction ids arbitrary: s)
  case Nil
  then show ?case by simp
next
  case (Cons i ids)
  have i: "i < nnodes (tree s)" using Cons.prems(2) by simp
  then obtain nd where nd: "tree_get (tree s) i = Inr nd" by (simp add: tree_get_def)
  let ?nd = "nd\<lparr>vectors := Some (Symbolic (node_symbols i vshape)),
                vectors_symbols := Some (node_symbols i vshape)\<rparr>"
  let ?s1 = "s\<lparr>tree := tree_set (tree s) i ?nd\<rparr>"
  have step: "sym_loop vshape (i # ids) s = sym_loop vshape ids ?s1"
    using assms(1) nd by simp
  have "\<exists>s'. sym_loop vshape ids ?s1 = Done s'
     \<and> ntips (tree s') = ntips (tree ?s1) \<and> nnodes (tree s') = nnodes (tree ?s1)
     \<and> (\<forall>k\<in>set ids. node_symbols_of (tree s') k = Some (node_symbols k vshape)
            \<and> node_vectors (tree s') k = Some (Symbolic (node_symbols k vshape)))
     \<and> (\<forall>k. k \<notin> set ids \<longrightarrow> tree_get (tree s') k = tree_get (tree ?s1) k)"
  proof (rule Cons.IH)
    show "distinct ids" using Cons.prems(1) by simp
    show "\<forall>k\<in>set ids. k < nnodes (tree ?s1)" using Cons.prems(2) by simp
  qed
  then obtain s' where s': "sym_loop vshape ids ?s1 = Done s'"
    and sz: "ntips (tree s') = ntips (tree ?s1)" "nnodes (tree s') = nnodes (tree ?s1)"
    and tl: "\<forall>k\<in>set ids. node_symbols_of (tree s') k = Some (node_symbols k vshape)
            \<and> node_vectors (tree s') k = Some (Symbolic (node_symbols k vshape))"
    and fr: "\<forall>k. k \<notin> set ids \<longrightarrow> tree_get (tree s') k = tree_get (tree ?s1) k"
    by (elim exE conjE)
  have "i \<notin> set ids" using Cons.prems(1) by simp
  with fr have "tree_get (tree s') i = tree_get (tree ?s1) i" by simp
  also have "\<dots> = Inr ?nd" using i by (simp add: tree_get_tree_set)
  finally have hd: "node_symbols_of (tree s') i = Some (node_symbols i vshape)"
    "node_vectors (tree s') i = Some (Symbolic (node_symbols i vshape))"
    by (simp_all add: node_symbols_of_def node_vectors_def)
  have frame: "\<forall>k. k \<notin> set (i # ids) \<longrightarrow> tree_get (tree s') k = tree_get (tree s) k"
    using fr i by (simp add: tree_get_tree_set)
  from step s' sz hd tl frame show ?case by simp
qed

lemma sym_ancestral_vectors_symbolized:
  assumes "first_vectors_shape s = Inr vshape" and "vshape \<noteq> []"
  shows "\<exists>s'. sym_ancestral_vectors s = Done s' \<and> symbolized s' vshape"
proof -
  let ?ids = "[ntips (tree s) ..< nnodes (tree s)]"
  have "\<exists>s'. sym_loop vshape ?ids s = Done s'
     \<and> ntips (tree s') = ntips (tree s) \<and> nnodes (tree s') = nnodes (tree s)
     \<and> (\<forall>i\<in>set ?ids. node_symbols_of (tree s') i = Some (node_symbols i vshape)
            \<and> node_vectors (tree s') i = Some (Symbolic (node_symbols i vshape)))
     \<and> (\<forall>i. i \<notin> set ?ids \<longrightarrow> tree_get (tree s') i = tree_get (tree s) i)"
    by (rule sym_loop_establishes [OF assms(2)]) simp_all
  then obtain s' where s': "sym_loop vshape ?ids s = Done s'"
    and sz: "ntips (tree s') = ntips (tree s)" "nnodes (tree s') = nnodes (tree s)"
    and syms: "\<forall>i\<in>set ?ids. node_symbols_of (tree s') i = Some (node_symbols i vshape)
            \<and> node_vectors (tree s') i = Some (Symbolic (node_symbols i vshape))"
    and fr: "\<forall>i. i \<notin> set ?ids \<longrightarrow> tree_get (tree s') i = tree_get (tree s) i"
    by (elim exE conjE)
  have run: "sym_ancestral_vectors s = Done s'"
    using assms(1) s' by (simp add: sym_ancestral_vectors_def)
  have shape: "first_vectors_shape s' = Inr vshape"
  proof (cases "0 \<in> set ?ids")
    case True
    with syms have "node_vectors (tree s') 0 = Some (Symbolic (node_symbols 0 vshape))" by blast
    then show ?thesis
      by (auto simp: first_vectors_shape_def node_vectors_def node_symbols_def split: sum.splits)
  next
    case False
    with fr have "tree_get (tree s') 0 = tree_get (tree s) 0" by blast
    then show ?thesis using assms(1) by (simp add: first_vectors_shape_def)
  qed
  have "symbolized s' vshape"
    using shape assms(2) syms sz by (simp add: symbolized_def list_all_iff)
  with run show ?thesis by blast
qed

lemma demo_symbolized_holds: "symbolized demo_symbolized [1]"
  by (simp add: symbolized_def first_vectors_shape_def node_symbols_of_def node_symbols_def
      np_prod_def demo_symbolized_tree tree_defs upt_rec str_nat_digit digit_char_def)

text \<open>
  Claim C4. In a state left by \<^verbatim>\<open>sym_ancestral_vectors\<close> (lemma
  \<open>sym_ancestral_vectors_symbolized\<close>), \<^verbatim>\<open>__update_variables\<close> orders the free
  variables as the parameters of the model followed by the flattened symbols of the
  ancestral nodes by increasing index: the block of node \<open>i\<close> starts at the number of
  parameters plus \<open>(i - ntips)\<close> times the size of a block. For a result vector of
  that length, on an object with the same tree and model, \<^verbatim>\<open>__summarize_ml_result\<close>
  takes the leading slice as the parameters and gives node \<open>i\<close> the block at the
  same position, with the shared shape, and leaves the tips alone. So when the result
  is the variables' values under some assignment, each ancestral node receives the
  values of its own symbols.
\<close>

theorem unpacking_inverts_packing:
  assumes "symbolized s vshape"
    and "tree s' = tree s" and "model s' = model s" and "result s' = Some r"
    and "length (res_x r) = length (get_parameters (model s))
           + (nnodes (tree s) - ntips (tree s)) * np_prod vshape"
  shows "\<exists>s1 s2. update_variables s = Done s1
     \<and> variables s1 = get_parameters (model s) @
          concat (map (\<lambda>i. flat (node_symbols i vshape)) [ntips (tree s) ..< nnodes (tree s)])
     \<and> summarize_ml_result s' = Done s2
     \<and> take (length (get_parameters (model s))) (variables s1) = get_parameters (model s)
     \<and> model_params s' (res_x r) = take (length (get_parameters (model s))) (res_x r)
     \<and> (\<forall>i\<in>set [ntips (tree s) ..< nnodes (tree s)].
           take (np_prod vshape)
             (drop (length (get_parameters (model s)) + (i - ntips (tree s)) * np_prod vshape)
                (variables s1))
           = flat (node_symbols i vshape)
         \<and> node_vectors (tree s2) i =
             Some (Numeric \<lparr>shape = vshape, flat = take (np_prod vshape)
               (drop (length (get_parameters (model s)) + (i - ntips (tree s)) * np_prod vshape)
                  (res_x r))\<rparr>))
     \<and> (\<forall>i<ntips (tree s). node_vectors (tree s2) i = node_vectors (tree s) i)
     \<and> (\<forall>env. res_x r = map env (variables s1) \<longrightarrow>
           (\<forall>i\<in>set [ntips (tree s) ..< nnodes (tree s)].
              node_vectors (tree s2) i =
                Some (Numeric \<lparr>shape = vshape, flat = map env (flat (node_symbols i vshape))\<rparr>)))"
proof -
  let ?ids = "[ntips (tree s) ..< nnodes (tree s)]"
  let ?ps = "get_parameters (model s)"
  let ?n = "np_prod vshape"
  let ?vars = "?ps @ concat (map (\<lambda>i. flat (node_symbols i vshape)) ?ids)"
  let ?s1 = "s\<lparr>variables := ?vars\<rparr>"
  let ?x = "res_x r"
  let ?pos = "\<lambda>i. length ?ps + (i - ntips (tree s)) * ?n"
  have upd: "update_variables s = Done ?s1" using assms(1) by (rule symbolized_packing)
  have "first_vectors_shape s' = first_vectors_shape s"
    using assms(2) by (rule first_vectors_shape_tree)
  then have sh: "first_vectors_shape s' = Inr vshape" and ne: "vshape \<noteq> []"
    using assms(1) by (simp_all add: symbolized_def)
  have "\<exists>s2. summarize_loop ?x vshape ?n ?ids (length ?ps) s' = Done s2
          \<and> (\<forall>j<length ?ids. node_vectors (tree s2) (?ids ! j) =
                Some (Numeric \<lparr>shape = vshape, flat = take ?n (drop (length ?ps + j * ?n) ?x)\<rparr>))
          \<and> (\<forall>i. i \<notin> set ?ids \<longrightarrow> node_vectors (tree s2) i = node_vectors (tree s') i)"
  proof (rule summarize_loop_unpacks [OF ne])
    show "distinct ?ids" by simp
    show "\<forall>i\<in>set ?ids. i < nnodes (tree s')" using assms(2) by simp
    show "length ?ps + length ?ids * ?n \<le> length ?x" using assms(5) by simp
  qed
  then obtain s2 where loop: "summarize_loop ?x vshape ?n ?ids (length ?ps) s' = Done s2"
    and blocks: "\<forall>j<length ?ids. node_vectors (tree s2) (?ids ! j) =
                Some (Numeric \<lparr>shape = vshape, flat = take ?n (drop (length ?ps + j * ?n) ?x)\<rparr>)"
    and frame: "\<forall>i. i \<notin> set ?ids \<longrightarrow> node_vectors (tree s2) i = node_vectors (tree s') i"
    by (elim exE conjE)
  have summ: "summarize_ml_result s' = Done s2"
    using loop sh assms(2,3,4) by (simp add: summarize_ml_result_def Let_def)
  have unp: "\<forall>i\<in>set ?ids. node_vectors (tree s2) i =
                Some (Numeric \<lparr>shape = vshape, flat = take ?n (drop (?pos i) ?x)\<rparr>)"
  proof
    fix i assume "i \<in> set ?ids"
    then have i: "ntips (tree s) \<le> i" "i < nnodes (tree s)" by simp_all
    then have j: "i - ntips (tree s) < length ?ids" and k: "?ids ! (i - ntips (tree s)) = i"
      by (simp_all add: nth_upt)
    from blocks [rule_format, OF j]
    show "node_vectors (tree s2) i =
                Some (Numeric \<lparr>shape = vshape, flat = take ?n (drop (?pos i) ?x)\<rparr>)"
      unfolding k .
  qed
  have pk: "\<forall>i\<in>set ?ids. take ?n (drop (?pos i) ?vars) = flat (node_symbols i vshape)"
  proof
    fix i assume "i \<in> set ?ids"
    then have "ntips (tree s) \<le> i" "i < nnodes (tree s)" by simp_all
    then show "take ?n (drop (?pos i) ?vars) = flat (node_symbols i vshape)"
      by (rule packed_block)
  qed
  have tips: "\<forall>i<ntips (tree s). node_vectors (tree s2) i = node_vectors (tree s) i"
    using frame assms(2) by simp
  have envv: "\<forall>env. ?x = map env ?vars \<longrightarrow>
           (\<forall>i\<in>set ?ids. node_vectors (tree s2) i =
                Some (Numeric \<lparr>shape = vshape, flat = map env (flat (node_symbols i vshape))\<rparr>))"
  proof (intro allI impI ballI)
    fix env i assume x: "?x = map env ?vars" and i: "i \<in> set ?ids"
    have "take ?n (drop (?pos i) ?x) = map env (take ?n (drop (?pos i) ?vars))"
      unfolding x by (simp only: take_map drop_map)
    also have "\<dots> = map env (flat (node_symbols i vshape))"
      using pk [rule_format, OF i] by (rule arg_cong)
    finally show "node_vectors (tree s2) i =
                Some (Numeric \<lparr>shape = vshape, flat = map env (flat (node_symbols i vshape))\<rparr>)"
      using unp [rule_format, OF i] by simp
  qed
  have mp: "model_params s' ?x = take (length ?ps) ?x"
    using assms(3) by (simp add: model_params_def)
  have v1: "variables ?s1 = ?vars" by simp
  have tk: "take (length ?ps) (variables ?s1) = ?ps" by simp
  have both: "\<forall>i\<in>set ?ids. take ?n (drop (?pos i) (variables ?s1)) = flat (node_symbols i vshape)
         \<and> node_vectors (tree s2) i =
             Some (Numeric \<lparr>shape = vshape, flat = take ?n (drop (?pos i) ?x)\<rparr>)"
    using pk unp unfolding v1 by (intro ballI conjI) (erule bspec, assumption)+
  show ?thesis
    apply (rule exI [of _ ?s1])
    apply (rule exI [of _ s2])
    apply (intro conjI)
           apply (rule upd)
          apply (rule v1)
         apply (rule summ)
        apply (rule tk)
       apply (rule mp)
      apply (rule both)
     apply (rule tips)
    unfolding v1 apply (rule envv)
    done
qed

theorem unpacking_inverts_packing_witness:
  "symbolized demo_symbolized [1]
   \<and> res_x (demo_run 2) = [2 / 1000, 2 / 1000, 100498 / 100000]
   \<and> (\<exists>s1 s2. update_variables demo_symbolized = Done s1
         \<and> variables s1 = [''sigma'', ''3_0'', ''4_0'']
         \<and> summarize_ml_result (demo_compiled\<lparr>result := Some (demo_run 2)\<rparr>) = Done s2
         \<and> node_vectors (tree s2) 3 = Some (Numeric \<lparr>shape = [1], flat = [2 / 1000]\<rparr>)
         \<and> node_vectors (tree s2) 4 = Some (Numeric \<lparr>shape = [1], flat = [100498 / 100000]\<rparr>))"
proof -
  let ?s' = "demo_compiled\<lparr>result := Some (demo_run 2)\<rparr>"
  have x: "res_x (demo_run 2) = [2 / 1000, 2 / 1000, 100498 / 100000]"
    by (simp add: demo_run_fields demo_initials_def)
  have nt: "ntips (tree demo_symbolized) = 3" "nnodes (tree demo_symbolized) = 5"
    by (simp_all add: demo_symbolized_tree tree_defs)
  have ps: "get_parameters (model demo_symbolized) = [''sigma'']"
    by (simp add: demo_symbolized_rest demo_model_def)
  have len: "length (res_x (demo_run 2)) = length (get_parameters (model demo_symbolized))
           + (nnodes (tree demo_symbolized) - ntips (tree demo_symbolized)) * np_prod [1]"
    by (simp add: x nt ps np_prod_def)
  have t: "tree ?s' = tree demo_symbolized" and m: "model ?s' = model demo_symbolized"
    and r: "result ?s' = Some (demo_run 2)"
    by (simp_all add: demo_compiled_fields demo_symbolized_rest)
  from unpacking_inverts_packing [OF demo_symbolized_holds t m r len]
  obtain s1 s2 where u: "update_variables demo_symbolized = Done s1"
    and v: "variables s1 = get_parameters (model demo_symbolized) @
          concat (map (\<lambda>i. flat (node_symbols i [1]))
            [ntips (tree demo_symbolized) ..< nnodes (tree demo_symbolized)])"
    and sm: "summarize_ml_result ?s' = Done s2"
    and un: "\<forall>i\<in>set [ntips (tree demo_symbolized) ..< nnodes (tree demo_symbolized)].
           take (np_prod [1])
             (drop (length (get_parameters (model demo_symbolized))
                     + (i - ntips (tree demo_symbolized)) * np_prod [1]) (variables s1))
           = flat (node_symbols i [1])
         \<and> node_vectors (tree s2) i =
             Some (Numeric \<lparr>shape = [1], flat = take (np_prod [1])
               (drop (length (get_parameters (model demo_symbolized))
                       + (i - ntips (tree demo_symbolized)) * np_prod [1])
                  (res_x (demo_run 2)))\<rparr>)"
    by (elim exE conjE)
  have v': "variables s1 = [''sigma'', ''3_0'', ''4_0'']"
    using v by (simp add: nt ps node_symbols_def np_prod_def upt_rec str_nat_digit digit_char_def)
  have "3 \<in> set [ntips (tree demo_symbolized) ..< nnodes (tree demo_symbolized)]"
    and "4 \<in> set [ntips (tree demo_symbolized) ..< nnodes (tree demo_symbolized)]"
    by (simp_all add: nt)
  with un have n3: "node_vectors (tree s2) 3 = Some (Numeric \<lparr>shape = [1], flat = [2 / 1000]\<rparr>)"
    and n4: "node_vectors (tree s2) 4 = Some (Numeric \<lparr>shape = [1], flat = [100498 / 100000]\<rparr>)"
    by (simp_all add: nt ps x np_prod_def)
  have "\<exists>s1 s2. update_variables demo_symbolized = Done s1
         \<and> variables s1 = [''sigma'', ''3_0'', ''4_0'']
         \<and> summarize_ml_result ?s' = Done s2
         \<and> node_vectors (tree s2) 3 = Some (Numeric \<lparr>shape = [1], flat = [2 / 1000]\<rparr>)
         \<and> node_vectors (tree s2) 4 = Some (Numeric \<lparr>shape = [1], flat = [100498 / 100000]\<rparr>)"
    using u v' sm n3 n4 by (intro exI [of _ s1] exI [of _ s2] conjI)
  with demo_symbolized_holds x show ?thesis by (intro conjI)
qed

subsection \<open>The initial guess\<close>

lemma length_perturb_tail [simp]: "length (perturb_tail ext k xs) = length xs"
  by (simp add: perturb_tail_def Let_def)

lemma perturb_tail_nth:
  assumes "i < length xs"
  shows "perturb_tail ext k xs ! i =
           (if i < neg_slice_start (length xs) k then xs ! i else perturb ext (xs ! i))"
proof -
  let ?st = "neg_slice_start (length xs) k"
  have st: "?st \<le> length xs" by (simp add: neg_slice_start_def)
  show ?thesis
  proof (cases "i < ?st")
    case True
    then show ?thesis using st by (simp add: perturb_tail_def Let_def nth_append)
  next
    case False
    then have "i - ?st < length (drop ?st xs)" using assms by simp
    then have "map (perturb ext) (drop ?st xs) ! (i - ?st) = perturb ext (drop ?st xs ! (i - ?st))"
      by (rule nth_map)
    moreover have "drop ?st xs ! (i - ?st) = xs ! i" using False st by simp
    ultimately have m: "map (perturb ext) (drop ?st xs) ! (i - ?st) = perturb ext (xs ! i)"
      by simp
    have lt: "length (take ?st xs) = ?st" using st by simp
    have "perturb_tail ext k xs ! i = (take ?st xs @ map (perturb ext) (drop ?st xs)) ! i"
      by (simp only: perturb_tail_def Let_def)
    also have "\<dots> = map (perturb ext) (drop ?st xs) ! (i - ?st)"
      using False by (simp only: nth_append lt if_False)
    finally show ?thesis using m False by simp
  qed
qed

lemma len_vector_mean_one_node:
  "len_vector_mean tvs = Inr len_vt \<Longrightarrow> tvs \<noteq> [] \<Longrightarrow> len_vt = np_prod (vectors_shape (hd tvs))"
  by (cases tvs) (auto simp: len_vector_mean_def split: if_splits)

lemma len_vector_mean_positive: "len_vector_mean tvs = Inr len_vt \<Longrightarrow> 0 < len_vt"
  by (cases tvs) (auto simp: len_vector_mean_def split: if_splits)

lemma neg_slice_start_last_block:
  "0 < n \<Longrightarrow> 0 < m \<Longrightarrow> neg_slice_start (p + m * n) n = p + (m - 1) * n"
  by (cases m) (simp_all add: neg_slice_start_def)

text \<open>
  What the source does on every attempt whose initial guess is built: the guess has
  one entry for each free variable; \<open>len_vt\<close>, the flattened length of one node's
  vectors, is positive; the entries before the start of the slice \<^verbatim>\<open>[-len_vt:]\<close>
  are the drawn numbers, and only the entries of the slice are replaced. With \<open>m\<close>
  ancestral nodes of \<open>n\<close> components after \<open>p\<close> parameters the slice starts at
  \<open>p + (m - 1) * n\<close> (lemma \<open>neg_slice_start_last_block\<close>): it is the block of the
  last ancestral node.
\<close>

lemma initial_guess_replaces_last_entries:
  assumes "propose_initials ext s k = Inr xs"
  shows "\<exists>tip_vectors len_vt.
       tip_vectors_list s [0 ..< ntips (tree s)] = Inr tip_vectors
     \<and> len_vector_mean tip_vectors = Inr len_vt \<and> 0 < len_vt
     \<and> (tip_vectors \<noteq> [] \<longrightarrow> len_vt = np_prod (vectors_shape (hd tip_vectors)))
     \<and> length xs = length (variables s)
     \<and> (\<forall>i<length xs.
           (i < neg_slice_start (length xs) len_vt \<longrightarrow> xs ! i = rand ext k i)
         \<and> (neg_slice_start (length xs) len_vt \<le> i \<longrightarrow> xs ! i = perturb ext (rand ext k i)))"
proof -
  from assms obtain tvs len_vt where tvs: "tip_vectors_list s [0 ..< ntips (tree s)] = Inr tvs"
    and lv: "len_vector_mean tvs = Inr len_vt"
    and xs: "xs = perturb_tail ext len_vt (np_random_random ext k (length (variables s)))"
    by (auto simp: propose_initials_def split: sum.splits)
  let ?r = "np_random_random ext k (length (variables s))"
  have lr: "length ?r = length (variables s)" by (simp add: np_random_random_def)
  have len: "length xs = length (variables s)" using xs lr by simp
  have nth_r: "\<And>i. i < length xs \<Longrightarrow> ?r ! i = rand ext k i"
    using len by (simp add: np_random_random_def)
  have body: "\<forall>i<length xs.
           (i < neg_slice_start (length xs) len_vt \<longrightarrow> xs ! i = rand ext k i)
         \<and> (neg_slice_start (length xs) len_vt \<le> i \<longrightarrow> xs ! i = perturb ext (rand ext k i))"
  proof (intro allI impI)
    fix i assume i: "i < length xs"
    then have ir: "i < length ?r" using len lr by simp
    have "xs ! i = (if i < neg_slice_start (length xs) len_vt then rand ext k i
                    else perturb ext (rand ext k i))"
      using perturb_tail_nth [OF ir, of ext len_vt] nth_r [OF i] xs len lr by simp
    then show "(i < neg_slice_start (length xs) len_vt \<longrightarrow> xs ! i = rand ext k i)
         \<and> (neg_slice_start (length xs) len_vt \<le> i \<longrightarrow> xs ! i = perturb ext (rand ext k i))"
      by auto
  qed
  have one: "tvs \<noteq> [] \<longrightarrow> len_vt = np_prod (vectors_shape (hd tvs))"
    using lv len_vector_mean_one_node by blast
  have pos: "0 < len_vt" using lv by (rule len_vector_mean_positive)
  from tvs lv pos one len body show ?thesis by blast
qed

lemma demo_propose_initials_drawn:
  "propose_initials (demo_ext\<lparr>rand := rd, float64 := fl\<rparr>) demo_compiled k =
     Inr [rd k 0, rd k 1, fl (1 - fl (fl (rd k 2 - fl 0.5) * fl 0.01))]"
  by (simp add: propose_initials_def demo_compiled_fields demo_symbolized_tree tree_defs upt_rec
      len_vector_mean_def np_prod_def perturb_tail_def perturb_def neg_slice_start_def
      np_random_random_def demo_ext_def numeral_2_eq_2 [symmetric])

lemma demo_propose_initials_rounded:
  "propose_initials (demo_ext\<lparr>float64 := fl\<rparr>) demo_compiled 0 =
     Inr [0, 0, fl (1 - fl (fl (0 - fl 0.5) * fl 0.01))]"
  by (simp add: propose_initials_def demo_compiled_fields demo_symbolized_tree tree_defs upt_rec
      len_vector_mean_def np_prod_def perturb_tail_def perturb_def neg_slice_start_def
      np_random_random_def demo_ext_def)

text \<open>
  Claim C1 does not hold of the source. The claim has every component of every
  ancestral node replaced by a value within 0.5% of 1. On the tree \<open>((a,b),c)\<close> with
  one component for each node, the free variables are \<open>sigma\<close>, then \<open>3_0\<close> and
  \<open>4_0\<close> for the two ancestral nodes; with the drawn numbers all 0, and whatever the
  rounding of the float operations is, the initial guess keeps the drawn 0 for
  \<open>3_0\<close>, the component of ancestral node 3, and replaces only the last entry.
  So it is for any drawn numbers \<open>rd\<close> and on any attempt \<open>k\<close>: the entry of
  \<open>3_0\<close> is the drawn number itself.
\<close>

theorem initial_guess_misses_ancestral_node:
  "variables demo_compiled = [''sigma'', ''3_0'', ''4_0'']
   \<and> ancestral_symbols (tree demo_compiled) = [''3_0'', ''4_0'']
   \<and> propose_initials (demo_ext\<lparr>rand := rd, float64 := fl\<rparr>) demo_compiled k =
       Inr [rd k 0, rd k 1, fl (1 - fl (fl (rd k 2 - fl 0.5) * fl 0.01))]
   \<and> rand (demo_ext\<lparr>float64 := fl\<rparr>) 0 1 = 0
   \<and> propose_initials (demo_ext\<lparr>float64 := fl\<rparr>) demo_compiled 0 =
       Inr [0, 0, fl (1 - fl (fl (0 - fl 0.5) * fl 0.01))]
   \<and> \<not> (995 / 1000 < projr (propose_initials (demo_ext\<lparr>float64 := fl\<rparr>) demo_compiled 0) ! 1)"
proof -
  have a: "ancestral_symbols (tree demo_compiled) = [''3_0'', ''4_0'']"
    by (simp add: ancestral_symbols_def symbols_flat_def node_symbols_of_def demo_compiled_fields
        demo_symbolized_tree tree_defs upt_rec)
  note p = demo_propose_initials_rounded [of fl]
  have n: "\<not> (995 / 1000 < projr (propose_initials (demo_ext\<lparr>float64 := fl\<rparr>) demo_compiled 0) ! 1)"
    unfolding p by simp
  have r: "rand (demo_ext\<lparr>float64 := fl\<rparr>) 0 1 = 0" by (simp add: demo_ext_def)
  from demo_compiled_fields(2) a demo_propose_initials_drawn [where rd = rd and fl = fl and k = k] r p n
  show ?thesis by (intro conjI)
qed

end
